theory Spec2Isabelle
  imports Main "HOL-Library.Word" "HOL-Library.Log_Nat"
begin

section \<open>Binary floating point, as far as the module uses it\<close>

text \<open>
  The chance is read with \<^verbatim>\<open>GetOption<float>\<close> and kept in a \<^verbatim>\<open>double\<close>;
  \<^verbatim>\<open>RollDrop\<close> multiplies it by \<^verbatim>\<open>100.0\<close>, adds \<^verbatim>\<open>0.5\<close> and casts the sum to
  \<^verbatim>\<open>uint32\<close>. A finite binary floating-point number is a pair of an integer significand and
  an exponent of two, \<open>Fp m e\<close> standing for \<open>m * 2 ^ e\<close>. The value is a binary32 number when
  \<open>\<bar>m\<bar> < 2 ^ 24\<close> and \<open>- 149 \<le> e \<le> 104\<close>, and a binary64 number when \<open>\<bar>m\<bar> < 2 ^ 53\<close> and
  \<open>- 1074 \<le> e \<le> 971\<close>. Infinities and NaN are not values of the model: the configuration
  options are finite numbers.
\<close>

datatype fp = Fp (mant: int) (expo: int)

definition fp_val :: "fp \<Rightarrow> rat" where
  "fp_val x = (if 0 \<le> expo x then of_int (mant x * 2 ^ nat (expo x))
               else of_int (mant x) / of_int (2 ^ nat (- expo x)))"

definition is_float32 :: "fp \<Rightarrow> bool" where
  "is_float32 x \<longleftrightarrow> \<bar>mant x\<bar> < 2 ^ 24 \<and> - 149 \<le> expo x \<and> expo x \<le> 104"

definition is_float64 :: "fp \<Rightarrow> bool" where
  "is_float64 x \<longleftrightarrow> \<bar>mant x\<bar> < 2 ^ 53 \<and> - 1074 \<le> expo x \<and> expo x \<le> 971"

text \<open>
  \<open>rne m k\<close> is \<open>m / 2 ^ k\<close> rounded to the nearest integer, a tie going to the even
  neighbour: the rounding mode of the C++ arithmetic.
\<close>

definition rne :: "int \<Rightarrow> nat \<Rightarrow> int" where
  "rne m k =
     (let q = m div 2 ^ k; r = 2 * (m mod 2 ^ k) in
      if r < 2 ^ k then q
      else if 2 ^ k < r then q + 1
      else if even q then q else q + 1)"

text \<open>
  Rounding an exact result \<open>m * 2 ^ e\<close> to binary64: the significand keeps 53 bits, and no
  exponent goes below \<open>- 1074\<close> (gradual underflow). The sums and products of the module stay
  far below \<open>2 ^ 1024\<close>, so overflow to infinity is not a case of the model.
\<close>

definition round64 :: "int \<Rightarrow> int \<Rightarrow> fp" where
  "round64 m e =
     (let k = max (bitlen \<bar>m\<bar> - 53) (- 1074 - e) in
      if k \<le> 0 then Fp m e else Fp (rne m (nat k)) (e + k))"

definition double_mul :: "fp \<Rightarrow> fp \<Rightarrow> fp" where
  "double_mul x y = round64 (mant x * mant y) (expo x + expo y)"

definition double_add :: "fp \<Rightarrow> fp \<Rightarrow> fp" where
  "double_add x y =
     (let e = min (expo x) (expo y) in
      round64 (mant x * 2 ^ nat (expo x - e) + mant y * 2 ^ nat (expo y - e)) e)"

definition fp_le :: "fp \<Rightarrow> fp \<Rightarrow> bool" where
  "fp_le x y =
     (let e = min (expo x) (expo y) in
      mant x * 2 ^ nat (expo x - e) \<le> mant y * 2 ^ nat (expo y - e))"

definition fp_less :: "fp \<Rightarrow> fp \<Rightarrow> bool" where
  "fp_less x y = (\<not> fp_le y x)"

text \<open>The conversion of a \<^verbatim>\<open>double\<close> to an integer type drops the fraction (towards zero).\<close>

definition double_trunc :: "fp \<Rightarrow> int" where
  "double_trunc x =
     (if 0 \<le> expo x then mant x * 2 ^ nat (expo x)
      else sgn (mant x) * (\<bar>mant x\<bar> div 2 ^ nat (- expo x)))"

definition double_to_uint32 :: "fp \<Rightarrow> 32 word" where
  "double_to_uint32 x = word_of_int (double_trunc x)"

definition d_0 :: fp where "d_0 = Fp 0 0"
definition d_half :: fp where "d_half = Fp 1 (- 1)"
definition d_1 :: fp where "d_1 = Fp 1 0"
definition d_100 :: fp where "d_100 = Fp 100 0"

section \<open>Constants and configuration\<close>

definition NPC_BARON_GEDDON :: "32 word" where "NPC_BARON_GEDDON = 12056"
definition ITEM_TALISMAN :: "32 word" where "ITEM_TALISMAN = 17782"

record ShardConfig =
  enable :: bool
  npcEntry :: "32 word"
  chancePct :: fp
  allowRepeat :: bool
  resetOnStart :: bool

section \<open>The roll\<close>

text \<open>
  \<^verbatim>\<open>RollDrop\<close> reads the chance from the configuration. \<^verbatim>\<open>urand(1, scale)\<close> is the host's
  random source; the value it returns at this call is the argument \<open>roll\<close>.
\<close>

definition RollDrop :: "ShardConfig \<Rightarrow> 32 word \<Rightarrow> bool" where
  "RollDrop conf roll =
     (if fp_le (chancePct conf) d_0 then False
      else if fp_le d_100 (chancePct conf) then True
      else
        (let need = double_to_uint32 (double_add (double_mul (chancePct conf) d_100) d_half)
         in roll \<le> need))"

text \<open>
  The roll as the specification words it, on the exact value of the chance: never below or at
  0, always from 100 on, and otherwise the draw against \<open>round (chancePercent * 100)\<close>.
\<close>

definition spec_Roll :: "rat \<Rightarrow> int \<Rightarrow> bool" where
  "spec_Roll chancePercent draw =
     (if chancePercent \<le> 0 then False
      else if 100 \<le> chancePercent then True
      else draw \<le> round (chancePercent * 100))"

section \<open>Persistence: the row of the once-per-server table\<close>

text \<open>
  The table \<^verbatim>\<open>mod_geddon_once_drop\<close> holds one row per key, and the module reads and writes
  the row of the key \<^verbatim>\<open>geddon_17782_once\<close> only. The store of the model is that row:
  \<open>None\<close> when the table or the row does not exist. \<^verbatim>\<open>dropped\<close> is a \<^verbatim>\<open>TINYINT\<close> read as
  \<^verbatim>\<open>uint8\<close>, \<^verbatim>\<open>last_drop_time\<close> a \<^verbatim>\<open>BIGINT UNSIGNED\<close>, \<^verbatim>\<open>last_killer\<close> a nullable string.
  The \<^verbatim>\<open>LOG_INFO\<close> lines go to the server log and are not part of the state.
\<close>

record GateRow =
  dropped :: "8 word"
  last_drop_time :: "64 word"
  last_killer :: "string option"

subsection \<open>Host objects\<close>

record Player =
  player_name :: string

record LootItem =
  itemid :: "32 word"
  count :: "8 word"

record LootStoreItem =
  store_itemid :: "32 word"
  reference :: "32 word"
  chance :: fp
  needs_quest :: bool
  lootmode :: "16 word"
  groupid :: "8 word"
  mincount :: "32 word"
  maxcount :: "8 word"

record Loot =
  items :: "LootItem list"
  quest_items :: "LootItem list"

record Creature =
  creature_entry :: "32 word"
  creature_name :: string
  loot :: Loot

record Item =
  item_entry :: "32 word"

datatype ObjectGuid = CreatureGuid nat | GameObjectGuid nat | OtherGuid nat

fun IsCreature :: "ObjectGuid \<Rightarrow> bool" where
  "IsCreature (CreatureGuid _) = True"
| "IsCreature _ = False"

fun IsGameObject :: "ObjectGuid \<Rightarrow> bool" where
  "IsGameObject (GameObjectGuid _) = True"
| "IsGameObject _ = False"

subsection \<open>The state the module works on\<close>

text \<open>
  The globals of the module (\<^verbatim>\<open>gConf\<close>, \<^verbatim>\<open>gAlreadyDropped\<close>), the database row, the
  creatures of the host by address (a \<^verbatim>\<open>Creature*\<close> is \<open>None\<close> for the null pointer or
  \<open>Some a\<close>), the messages handed to \<^verbatim>\<open>SendGlobalMessage\<close> in the order they were sent, and
  the lookups of the host: \<^verbatim>\<open>ObjectAccessor::GetCreature\<close>, \<^verbatim>\<open>ObjectAccessor::GetGameObject\<close>
  (the name of the object found) and \<^verbatim>\<open>sObjectMgr->GetCreatureTemplate\<close> (the name of the
  template found).
\<close>

record world =
  gConf :: ShardConfig
  gAlreadyDropped :: bool
  db_row :: "GateRow option"
  creatures :: "nat \<Rightarrow> Creature"
  global_messages :: "string list"
  GetCreature :: "Player \<Rightarrow> ObjectGuid \<Rightarrow> nat option"
  GetGameObject :: "Player \<Rightarrow> ObjectGuid \<Rightarrow> string option"
  GetCreatureTemplate :: "32 word \<Rightarrow> string option"

text \<open>\<^verbatim>\<open>UPDATE ... WHERE keyname = 'geddon_17782_once'\<close>: changes the row when there is one.\<close>

definition db_update :: "(GateRow \<Rightarrow> GateRow) \<Rightarrow> world \<Rightarrow> world" where
  "db_update f s = s\<lparr>db_row := map_option f (db_row s)\<rparr>"

definition EnsureTable :: "world \<Rightarrow> world" where
  "EnsureTable s =
     (case db_row s of
        None \<Rightarrow> s\<lparr>db_row := Some \<lparr>dropped = 0, last_drop_time = 0, last_killer = None\<rparr>\<rparr>
      | Some r \<Rightarrow> s)"

definition LoadDroppedState :: "world \<Rightarrow> world" where
  "LoadDroppedState s =
     (case db_row s of
        Some r \<Rightarrow> s\<lparr>gAlreadyDropped := (dropped r \<noteq> 0)\<rparr>
      | None \<Rightarrow> s\<lparr>gAlreadyDropped := False\<rparr>)"

definition MaybeResetState :: "world \<Rightarrow> world" where
  "MaybeResetState s =
     (if \<not> resetOnStart (gConf s) then s
      else (db_update (\<lambda>r. r\<lparr>dropped := 0, last_drop_time := 0, last_killer := None\<rparr>) s)
             \<lparr>gAlreadyDropped := False\<rparr>)"

subsection \<open>The statements that carry a name\<close>

text \<open>
  The two lines both recording operations apply to a non-empty name:
  \<^verbatim>\<open>if (name.size() > 63) name.resize(63);\<close> and
  \<^verbatim>\<open>for (char& ch : name) if (ch == '\'' || ch == '\"') ch = '_';\<close>
\<close>

definition sanitized_name :: "string \<Rightarrow> string" where
  "sanitized_name name =
     map (\<lambda>ch. if ch = CHR 0x27 \<or> ch = CHR 0x22 then CHR ''_'' else ch)
       (if 63 < length name then take 63 name else name)"

text \<open>
  The module pastes the name between single quotes into the text of the statement
  (\<^verbatim>\<open>`last_killer`='{}' WHERE `keyname`='{}'\<close>) and hands the text over with \<^verbatim>\<open>c_str()\<close>, so
  the statement ends before the first NUL character. The text before the name is fixed text
  and decimal numbers; the model keeps the assignments it makes as they are and gives the
  server the rest of the text, from the name on, to read.

  The server reads a quoted string as MySQL does in its default mode: a backslash takes the
  next character with it (\<^verbatim>\<open>\0 \b \n \r \t \Z\<close> stand for control characters, \<^verbatim>\<open>\%\<close> and
  \<^verbatim>\<open>\_\<close> stay as they are, before any other character the backslash is dropped), two quotes
  in a row stand for one, and a single quote ends the string. \<open>read_literal\<close> returns the
  value read and the text left after the closing quote, \<open>None\<close> when the string does not end.
\<close>

definition KEY_NAME :: string where "KEY_NAME = ''geddon_17782_once''"

definition c_str :: "string \<Rightarrow> string" where
  "c_str text = takeWhile (\<lambda>ch. ch \<noteq> CHR 0x00) text"

definition mysql_escape :: "char \<Rightarrow> string" where
  "mysql_escape ch =
     (if ch = CHR ''0'' then [CHR 0x00]
      else if ch = CHR ''b'' then [CHR 0x08]
      else if ch = CHR ''n'' then [CHR 0x0A]
      else if ch = CHR ''r'' then [CHR 0x0D]
      else if ch = CHR ''t'' then [CHR 0x09]
      else if ch = CHR ''Z'' then [CHR 0x1A]
      else if ch = CHR ''%'' \<or> ch = CHR ''_'' then [CHR 0x5C, ch]
      else [ch])"

fun read_literal :: "string \<Rightarrow> (string \<times> string) option" where
  "read_literal [] = None"
| "read_literal [c] = (if c = CHR 0x27 then Some ([], []) else None)"
| "read_literal (c # d # cs) =
     (if c = CHR 0x5C
      then map_option (\<lambda>(v, rest). (mysql_escape d @ v, rest)) (read_literal cs)
      else if c = CHR 0x27
      then (if d = CHR 0x27
            then map_option (\<lambda>(v, rest). (CHR 0x27 # v, rest)) (read_literal cs)
            else Some ([], d # cs))
      else map_option (\<lambda>(v, rest). (c # v, rest)) (read_literal (d # cs)))"

definition where_clause :: string where
  "where_clause = '' WHERE `keyname`='' @ [CHR 0x27] @ KEY_NAME @ [CHR 0x27]"

text \<open>
  The value the server reads for \<^verbatim>\<open>last_killer\<close> from the statement built with a name: the
  statement is well formed when the quoted string ends and what follows it is the
  \<^verbatim>\<open>WHERE\<close> clause; \<open>None\<close> otherwise, for a statement the server rejects as a syntax error.
  A rejected statement writes nothing, and the module goes on after it.
\<close>

definition name_literal :: "string \<Rightarrow> string option" where
  "name_literal name =
     (case read_literal (c_str (name @ [CHR 0x27] @ where_clause)) of
        Some (v, rest) \<Rightarrow> if rest = where_clause then Some v else None
      | None \<Rightarrow> None)"

text \<open>\<^verbatim>\<open>UPDATE ... SET ..., `last_killer`='name' WHERE `keyname`='geddon_17782_once'\<close>.\<close>

definition db_update_named :: "string \<Rightarrow> (string \<Rightarrow> GateRow \<Rightarrow> GateRow) \<Rightarrow> world \<Rightarrow> world" where
  "db_update_named name f s =
     (case name_literal name of Some v \<Rightarrow> db_update (f v) s | None \<Rightarrow> s)"

definition GetName :: "Player option \<Rightarrow> string" where
  "GetName p = (case p of Some pl \<Rightarrow> player_name pl | None \<Rightarrow> [])"

text \<open>
  \<^verbatim>\<open>PersistDropped_KillPhase\<close>; \<^verbatim>\<open>PersistDropped\<close> of
  \<^verbatim>\<open>mod_talisman_of_binding_shard.cpp\<close> has the same body. \<open>now\<close> is the value of
  \<^verbatim>\<open>std::time(nullptr)\<close> at the call.
\<close>

definition PersistDropped_KillPhase :: "world \<Rightarrow> Player option \<Rightarrow> 64 word \<Rightarrow> world" where
  "PersistDropped_KillPhase s killer now =
     (if allowRepeat (gConf s) then s
      else
        (let name = GetName killer;
             s1 = (if name = []
                   then db_update (\<lambda>r. r\<lparr>dropped := 1, last_drop_time := now,
                                          last_killer := None\<rparr>) s
                   else db_update_named (sanitized_name name)
                          (\<lambda>v r. r\<lparr>dropped := 1, last_drop_time := now,
                                     last_killer := Some v\<rparr>) s)
         in s1\<lparr>gAlreadyDropped := True\<rparr>))"

definition PersistDropped :: "world \<Rightarrow> Player option \<Rightarrow> 64 word \<Rightarrow> world" where
  "PersistDropped = PersistDropped_KillPhase"

definition PersistDropped_LootPhase :: "world \<Rightarrow> Player option \<Rightarrow> 64 word \<Rightarrow> world" where
  "PersistDropped_LootPhase s looter now =
     (if allowRepeat (gConf s) then s
      else
        (let name = GetName looter in
         if name = [] then s
         else db_update_named (sanitized_name name)
                (\<lambda>v r. r\<lparr>last_drop_time := now, last_killer := Some v\<rparr>) s))"

section \<open>Loot\<close>

definition LOOT_MODE_DEFAULT :: "16 word" where "LOOT_MODE_DEFAULT = 1"

definition MakeLootStoreItem :: "32 word \<Rightarrow> LootStoreItem" where
  "MakeLootStoreItem itemId =
     \<lparr>store_itemid = itemId, reference = 0, chance = d_100, needs_quest = False,
      lootmode = LOOT_MODE_DEFAULT, groupid = 0, mincount = 1, maxcount = 1\<rparr>"

text \<open>
  Modelled from the spec: \<^verbatim>\<open>Loot::AddItem\<close> belongs to the host (LootMgr) and is not in the
  repository. The spec has the kill occurrence ``insert exactly one unit of the reward item
  into the container'': one entry with the item of the store item is appended, to the quest
  items when the store item needs a quest and to the normal items otherwise. The host's limit
  on the number of entries of a container is not modelled.
\<close>

definition Loot_AddItem :: "LootStoreItem \<Rightarrow> Loot \<Rightarrow> Loot" where
  "Loot_AddItem item l =
     (let generated = \<lparr>itemid = store_itemid item, count = maxcount item\<rparr> in
      if needs_quest item then l\<lparr>quest_items := quest_items l @ [generated]\<rparr>
      else l\<lparr>items := items l @ [generated]\<rparr>)"

text \<open>
  A \<^verbatim>\<open>Loot*\<close> is \<open>None\<close> for the null pointer; \<^verbatim>\<open>AddOneToLoot\<close> returns the container as it
  is after the call.
\<close>

definition AddOneToLoot :: "Loot option \<Rightarrow> 32 word \<Rightarrow> Loot option" where
  "AddOneToLoot l itemId =
     (case l of None \<Rightarrow> None | Some c \<Rightarrow> Some (Loot_AddItem (MakeLootStoreItem itemId) c))"

definition LootHasItem :: "Loot option \<Rightarrow> 32 word \<Rightarrow> bool" where
  "LootHasItem l itemId =
     (case l of
        None \<Rightarrow> False
      | Some c \<Rightarrow>
          if list_ex (\<lambda>it. itemid it = itemId) (items c) then True
          else if list_ex (\<lambda>it. itemid it = itemId) (quest_items c) then True
          else False)"

section \<open>Announcements\<close>

definition SendGlobalMessage :: "string \<Rightarrow> world \<Rightarrow> world" where
  "SendGlobalMessage msg s = s\<lparr>global_messages := global_messages s @ [msg]\<rparr>"

definition GetLootSourceName :: "world \<Rightarrow> Player option \<Rightarrow> ObjectGuid \<Rightarrow> string" where
  "GetLootSourceName s player lootGuid =
     (case player of
        None \<Rightarrow> ''their foe''
      | Some pl \<Rightarrow>
          (let found =
                 (if IsCreature lootGuid
                  then map_option (\<lambda>a. creature_name (creatures s a)) (GetCreature s pl lootGuid)
                  else if IsGameObject lootGuid then GetGameObject s pl lootGuid
                  else None)
           in case found of
                Some n \<Rightarrow> n
              | None \<Rightarrow>
                  (case GetCreatureTemplate s (npcEntry (gConf s)) of
                     Some n \<Rightarrow> n
                   | None \<Rightarrow> ''their foe'')))"

definition AnnounceDrop_PlayerLoot :: "world \<Rightarrow> Player option \<Rightarrow> ObjectGuid \<Rightarrow> world" where
  "AnnounceDrop_PlayerLoot s looter lootGuid =
     (let who = (case looter of Some pl \<Rightarrow> player_name pl | None \<Rightarrow> ''Someone'');
          bossName = GetLootSourceName s looter lootGuid;
          msg = who @ '' has looted the legendary Talisman of Binding Shard from ''
                  @ bossName @ ''!''
      in SendGlobalMessage msg s)"

text \<open>\<^verbatim>\<open>AnnounceDrop\<close> of \<^verbatim>\<open>mod_talisman_of_binding_shard.cpp\<close>.\<close>

definition AnnounceDrop :: "world \<Rightarrow> Player option \<Rightarrow> nat option \<Rightarrow> world" where
  "AnnounceDrop s killer killed =
     (let who = (case killer of Some pl \<Rightarrow> player_name pl | None \<Rightarrow> ''Someone'');
          bossName =
            (case killed of
               Some a \<Rightarrow> creature_name (creatures s a)
             | None \<Rightarrow>
                 (case GetCreatureTemplate s (npcEntry (gConf s)) of
                    Some n \<Rightarrow> n
                  | None \<Rightarrow> ''their foe''));
          msg = who @ '' has defeated '' @ bossName
                  @ '' and claimed the legendary Talisman of Binding Shard!''
      in SendGlobalMessage msg s)"

section \<open>The hooks\<close>

text \<open>
  The options of the configuration file as \<^verbatim>\<open>sConfigMgr\<close> finds them: \<open>None\<close> for an option
  that is missing or does not parse, for which \<^verbatim>\<open>GetOption\<close> returns its default.
\<close>

record ConfigFile =
  conf_enable :: "bool option"
  conf_npc_entry :: "32 word option"
  conf_chance :: "fp option"
  conf_allow_repeat :: "bool option"
  conf_reset :: "bool option"

definition GetOption :: "'a option \<Rightarrow> 'a \<Rightarrow> 'a" where
  "GetOption v def = (case v of Some x \<Rightarrow> x | None \<Rightarrow> def)"

definition OnAfterConfigLoad :: "world \<Rightarrow> bool \<Rightarrow> ConfigFile \<Rightarrow> world" where
  "OnAfterConfigLoad s reload file =
     (let c0 = \<lparr>enable = GetOption (conf_enable file) True,
                npcEntry = GetOption (conf_npc_entry file) NPC_BARON_GEDDON,
                chancePct = GetOption (conf_chance file) d_1,
                allowRepeat = GetOption (conf_allow_repeat file) False,
                resetOnStart = GetOption (conf_reset file) False\<rparr>;
          c1 = (if npcEntry c0 = 0 then c0\<lparr>npcEntry := NPC_BARON_GEDDON\<rparr> else c0);
          c2 = (if fp_less (chancePct c1) d_0 then c1\<lparr>chancePct := d_0\<rparr> else c1);
          c3 = (if fp_less d_100 (chancePct c2) then c2\<lparr>chancePct := d_100\<rparr> else c2)
      in LoadDroppedState (MaybeResetState (EnsureTable (s\<lparr>gConf := c3\<rparr>))))"

text \<open>
  The kill hook of the two-phase file. \<open>roll\<close> is what \<^verbatim>\<open>urand(1, 10000)\<close> returns if the
  hook reaches \<^verbatim>\<open>RollDrop\<close>, \<open>now\<close> what \<^verbatim>\<open>std::time\<close> returns if it reaches the recording.
\<close>

definition OnPlayerCreatureKill ::
  "world \<Rightarrow> Player option \<Rightarrow> nat option \<Rightarrow> 32 word \<Rightarrow> 64 word \<Rightarrow> world" where
  "OnPlayerCreatureKill s killer killed roll now =
     (if \<not> enable (gConf s) \<or> killer = None \<or> killed = None then s
      else
        (let a = the killed in
          if creature_entry (creatures s a) \<noteq> npcEntry (gConf s) then s
          else if \<not> allowRepeat (gConf s) \<and> gAlreadyDropped s then s
          else if LootHasItem (Some (loot (creatures s a))) ITEM_TALISMAN then s
          else if \<not> RollDrop (gConf s) roll then s
          else
            (let l = the (AddOneToLoot (Some (loot (creatures s a))) ITEM_TALISMAN);
                 s1 = s\<lparr>creatures := (creatures s)(a := (creatures s a)\<lparr>loot := l\<rparr>)\<rparr>
             in PersistDropped_KillPhase s1 killer now)))"

text \<open>The kill hook of \<^verbatim>\<open>mod_talisman_of_binding_shard.cpp\<close>, which announces at the kill.\<close>

definition OnPlayerCreatureKill_talisman ::
  "world \<Rightarrow> Player option \<Rightarrow> nat option \<Rightarrow> 32 word \<Rightarrow> 64 word \<Rightarrow> world" where
  "OnPlayerCreatureKill_talisman s killer killed roll now =
     (if \<not> enable (gConf s) \<or> killer = None \<or> killed = None then s
      else
        (let a = the killed in
          if creature_entry (creatures s a) \<noteq> npcEntry (gConf s) then s
          else if \<not> allowRepeat (gConf s) \<and> gAlreadyDropped s then s
          else if LootHasItem (Some (loot (creatures s a))) ITEM_TALISMAN then s
          else if \<not> RollDrop (gConf s) roll then s
          else
            (let l = the (AddOneToLoot (Some (loot (creatures s a))) ITEM_TALISMAN);
                 s1 = s\<lparr>creatures := (creatures s)(a := (creatures s a)\<lparr>loot := l\<rparr>)\<rparr>;
                 s2 = PersistDropped s1 killer now
             in AnnounceDrop s2 killer killed)))"

definition OnPlayerLootItem ::
  "world \<Rightarrow> Player option \<Rightarrow> Item option \<Rightarrow> 32 word \<Rightarrow> ObjectGuid \<Rightarrow> 64 word \<Rightarrow> world" where
  "OnPlayerLootItem s looter item cnt lootGuid now =
     (if \<not> enable (gConf s) \<or> looter = None \<or> item = None then s
      else if item_entry (the item) \<noteq> ITEM_TALISMAN then s
      else PersistDropped_LootPhase (AnnounceDrop_PlayerLoot s looter lootGuid) looter now)"

section \<open>Sequences of occurrences\<close>

text \<open>
  The repository holds two files of the module: the two-phase one, which registers the kill
  hook and the loot hook, and \<^verbatim>\<open>mod_talisman_of_binding_shard.cpp\<close>, which registers a kill
  hook only. The host calls the registered hooks one occurrence after the other.
\<close>

datatype variant = TwoPhase | SinglePhase

datatype event =
    ConfigLoad bool ConfigFile
  | CreatureKill "Player option" "nat option" "32 word" "64 word"
  | LootCollect "Player option" "Item option" "32 word" ObjectGuid "64 word"

fun step :: "variant \<Rightarrow> world \<Rightarrow> event \<Rightarrow> world" where
  "step v s (ConfigLoad reload file) = OnAfterConfigLoad s reload file"
| "step TwoPhase s (CreatureKill killer killed roll now) =
     OnPlayerCreatureKill s killer killed roll now"
| "step SinglePhase s (CreatureKill killer killed roll now) =
     OnPlayerCreatureKill_talisman s killer killed roll now"
| "step TwoPhase s (LootCollect looter item cnt lootGuid now) =
     OnPlayerLootItem s looter item cnt lootGuid now"
| "step SinglePhase s (LootCollect looter item cnt lootGuid now) = s"

definition run :: "variant \<Rightarrow> world \<Rightarrow> event list \<Rightarrow> world" where
  "run v s es = foldl (step v) s es"

fun is_kill :: "event \<Rightarrow> bool" where
  "is_kill (CreatureKill _ _ _ _) = True"
| "is_kill _ = False"

section \<open>Predicates of the properties\<close>

text \<open>
  The persisted flag reads true when the row exists and \<^verbatim>\<open>dropped\<close> is not 0, as
  \<^verbatim>\<open>LoadDroppedState\<close> reads it. A configuration load resets when its
  \<^verbatim>\<open>GeddonShard.ResetOnStartup\<close> option is on. The control characters are those of ASCII.
  \<open>with_reward c\<close> is the creature \<open>c\<close> after one \<^verbatim>\<open>AddOneToLoot\<close> of the talisman.
\<close>

definition persisted_granted :: "world \<Rightarrow> bool" where
  "persisted_granted s = (case db_row s of Some r \<Rightarrow> dropped r \<noteq> 0 | None \<Rightarrow> False)"

fun is_reset_load :: "event \<Rightarrow> bool" where
  "is_reset_load (ConfigLoad reload file) = GetOption (conf_reset file) False"
| "is_reset_load _ = False"

definition is_control :: "char \<Rightarrow> bool" where
  "is_control ch \<longleftrightarrow> (of_char ch :: nat) < 32 \<or> (of_char ch :: nat) = 127"

text \<open>
  A kill occurrence whose killer has a name with no NUL and no backslash among its first 63
  characters: with such a name the statement of the kill phase is well formed.
\<close>

fun plain_killer :: "event \<Rightarrow> bool" where
  "plain_killer (CreatureKill killer killed roll now) =
     (CHR 0x00 \<notin> set (take 63 (GetName killer)) \<and> CHR 0x5C \<notin> set (take 63 (GetName killer)))"
| "plain_killer _ = True"

definition with_reward :: "Creature \<Rightarrow> Creature" where
  "with_reward c = c\<lparr>loot := Loot_AddItem (MakeLootStoreItem ITEM_TALISMAN) (loot c)\<rparr>"

section \<open>Example states and occurrences\<close>

definition ex_creature :: Creature where
  "ex_creature = \<lparr>creature_entry = 12056, creature_name = ''Baron Geddon'',
                  loot = \<lparr>items = [], quest_items = []\<rparr>\<rparr>"

definition ex_conf :: ShardConfig where
  "ex_conf = \<lparr>enable = True, npcEntry = 12056, chancePct = d_100, allowRepeat = False,
              resetOnStart = False\<rparr>"

definition ex_world :: world where
  "ex_world = \<lparr>gConf = ex_conf, gAlreadyDropped = False,
               db_row = Some \<lparr>dropped = 0, last_drop_time = 0, last_killer = None\<rparr>,
               creatures = (\<lambda>_. ex_creature), global_messages = [],
               GetCreature = (\<lambda>_ _. None), GetGameObject = (\<lambda>_ _. None),
               GetCreatureTemplate = (\<lambda>_. None)\<rparr>"

definition ex_granted :: world where
  "ex_granted = ex_world\<lparr>gAlreadyDropped := True,
                  db_row := Some \<lparr>dropped = 1, last_drop_time = 1700000000,
                                  last_killer = Some ''Alice''\<rparr>\<rparr>"

definition ex_repeat :: world where
  "ex_repeat = ex_world\<lparr>gConf := ex_conf\<lparr>allowRepeat := True\<rparr>\<rparr>"

definition alice :: Player where "alice = \<lparr>player_name = ''Alice''\<rparr>"
definition bob :: Player where "bob = \<lparr>player_name = ''Bob''\<rparr>"

definition ex_kill_alice :: event where
  "ex_kill_alice = CreatureKill (Some alice) (Some 3) 7 1700000000"

definition ex_kill_bob :: event where
  "ex_kill_bob = CreatureKill (Some bob) (Some 4) 7 1700000100"

definition ex_kill_backslash :: event where
  "ex_kill_backslash =
     CreatureKill (Some \<lparr>player_name = [CHR ''A'', CHR 0x5C]\<rparr>) (Some 3) 7 1700000000"

definition ex_file :: ConfigFile where
  "ex_file = \<lparr>conf_enable = Some True, conf_npc_entry = Some 12056, conf_chance = Some d_100,
               conf_allow_repeat = None, conf_reset = None\<rparr>"

definition ex_conf_1pct :: ShardConfig where
  "ex_conf_1pct = ex_conf\<lparr>chancePct := d_1\<rparr>"

definition ex_conf_tiny :: ShardConfig where
  "ex_conf_tiny = ex_conf\<lparr>chancePct := Fp 1 (- 10)\<rparr>"

definition ex_file_reset :: ConfigFile where
  "ex_file_reset = \<lparr>conf_enable = Some True, conf_npc_entry = Some 12056, conf_chance = Some d_100,
                     conf_allow_repeat = None, conf_reset = Some True\<rparr>"

definition ex_holding :: world where
  "ex_holding = ex_world\<lparr>creatures := (\<lambda>_. ex_creature)(3 := with_reward ex_creature)\<rparr>"

lemmas ex_defs = ex_world_def ex_conf_def ex_creature_def alice_def bob_def ex_granted_def
  ex_repeat_def ex_kill_alice_def ex_kill_bob_def ex_holding_def ex_file_reset_def
  ex_kill_backslash_def ex_file_def

lemmas hook_defs = OnPlayerCreatureKill_def OnPlayerCreatureKill_talisman_def OnPlayerLootItem_def
  LootHasItem_def RollDrop_def fp_le_def fp_less_def d_100_def d_0_def d_1_def ITEM_TALISMAN_def
  NPC_BARON_GEDDON_def AddOneToLoot_def
  Loot_AddItem_def MakeLootStoreItem_def PersistDropped_def PersistDropped_KillPhase_def
  PersistDropped_LootPhase_def db_update_def db_update_named_def GetName_def AnnounceDrop_def
  AnnounceDrop_PlayerLoot_def GetLootSourceName_def SendGlobalMessage_def with_reward_def
  OnAfterConfigLoad_def GetOption_def EnsureTable_def MaybeResetState_def LoadDroppedState_def
  Let_def

section \<open>The arithmetic of the roll\<close>

text \<open>
  A significand of at most 53 bits at an exponent not below \<open>- 1074\<close> is a binary64 number
  already, and rounding returns it.
\<close>

lemma round64_exact:
  "\<bar>m\<bar> < 2 ^ 53 \<Longrightarrow> - 1074 \<le> e \<Longrightarrow> round64 m e = Fp m e"
  by (simp add: round64_def Let_def bitlen_le_iff_power)

lemma mul_100_exact:
  assumes "\<bar>m\<bar> < 2 ^ 24" "- 149 \<le> e"
  shows "double_mul (Fp m e) d_100 = Fp (m * 100) e"
proof -
  have "\<bar>m * 100\<bar> < 2 ^ 53" using assms(1) by (simp add: abs_mult)
  then show ?thesis using assms(2) by (simp add: double_mul_def d_100_def round64_exact)
qed

lemma rne_upper: "rne m k \<le> m div 2 ^ k + 1"
  by (simp add: rne_def Let_def)

lemma rne_lower: "m div 2 ^ k \<le> rne m k"
  by (simp add: rne_def Let_def)

lemma double_trunc_nonneg:
  "0 \<le> m \<Longrightarrow> double_trunc (Fp m e) =
     (if 0 \<le> e then m * 2 ^ nat e else m div 2 ^ nat (- e))"
  by (cases "m = 0") (simp_all add: double_trunc_def)


text \<open>
  The sum \<^verbatim>\<open>chancePct * 100.0 + 0.5\<close> for a binary32 chance below 100, by the exponent of the
  chance: with an exponent from \<open>- 52\<close> up the sum is exact; below, the sum is rounded, and
  stays between one half and one.
\<close>

lemma need_nonneg_expo:
  assumes "0 < m" "m * 2 ^ n < 100"
  shows "double_trunc (double_add (Fp (m * 100) (int n)) d_half) = (m * 2 ^ n) * 100"
proof -
  let ?M = "m * 100 * 2 ^ Suc n + 1"
  have M: "?M < 2 ^ 53" "0 \<le> ?M" using assms by simp_all
  then have r: "round64 ?M (- 1) = Fp ?M (- 1)" by (intro round64_exact) simp_all
  have "double_add (Fp (m * 100) (int n)) d_half = Fp ?M (- 1)"
    using r by (simp add: double_add_def d_half_def Let_def nat_add_distrib Suc_nat_eq_nat_zadd1)
  moreover have "?M div 2 = (m * 2 ^ n) * 100" by simp
  ultimately show ?thesis using M(2) by (simp add: double_trunc_nonneg del: power_Suc)
qed

lemma need_small_neg_expo:
  assumes "0 < m" "m < 2 ^ 24" "j \<le> 51"
  shows "double_trunc (double_add (Fp (m * 100) (- int (Suc j))) d_half)
         = (m * 100 + 2 ^ j) div 2 ^ Suc j"
proof -
  let ?M = "m * 100 + 2 ^ j"
  have "(2::int) ^ j \<le> 2 ^ 51" using assms(3) by (intro power_increasing) simp_all
  then have M: "\<bar>?M\<bar> < 2 ^ 53" "0 \<le> ?M" using assms(1,2) by simp_all
  then have r: "round64 ?M (- int (Suc j)) = Fp ?M (- int (Suc j))"
    using assms(3) by (intro round64_exact) simp_all
  have "double_add (Fp (m * 100) (- int (Suc j))) d_half = Fp ?M (- int (Suc j))"
    using r by (simp add: double_add_def d_half_def Let_def min_def)
  moreover have "nat (int j + 1) = Suc j" by simp
  ultimately show ?thesis using M(2) by (simp add: double_trunc_nonneg del: power_Suc)
qed

lemma need_tiny:
  assumes "0 < m" "m < 2 ^ 24" "52 \<le> j" "int j \<le> 148"
  shows "double_trunc (double_add (Fp (m * 100) (- int (Suc j))) d_half) = 0"
proof -
  let ?M = "m * 100 + 2 ^ j"
  let ?e = "- int (Suc j)"
  have p: "(2::int) ^ 52 \<le> 2 ^ j" using assms(3) by (intro power_increasing) simp_all
  have M0: "0 \<le> ?M" using assms(1) by simp
  have sum: "double_add (Fp (m * 100) ?e) d_half = round64 ?M ?e"
    by (simp add: double_add_def d_half_def Let_def min_def)
  have bl: "bitlen \<bar>?M\<bar> = int j + 1"
  proof -
    have "m * 100 < 2 ^ j" using assms(2) p by simp
    then have "bitlen (2 ^ j + m * 100) = int j + 1"
      using assms(1) bitlen_twopow_add_eq [of "m * 100" j] by simp
    then show ?thesis using M0 by (simp add: add.commute)
  qed
  define k where "k = j - 52"
  have jk: "j = k + 52" using assms(3) by (simp add: k_def)
  have kk: "max (bitlen \<bar>?M\<bar> - 53) (- 1074 - ?e) = int k"
    using assms(3,4) by (simp add: bl k_def)
  show ?thesis
  proof (cases "k = 0")
    case True
    then have "round64 ?M ?e = Fp ?M ?e" using kk by (simp add: round64_def Let_def)
    moreover have "?M < 2 ^ 53" using assms(1,2) True jk by simp
    ultimately show ?thesis using M0 sum True jk
      by (simp add: double_trunc_nonneg del: power_Suc)
  next
    case False
    then have r: "round64 ?M ?e = Fp (rne ?M k) (- 53)"
      using kk jk by (simp add: round64_def Let_def)
    have "?M \<le> (3 * 2 ^ 51) * 2 ^ k"
    proof -
      have "m * 100 \<le> 2 ^ 51 * 2 ^ k" 
      proof -
        have "m * 100 \<le> 2 ^ 51 * 1" using assms(2) by simp
        also have "\<dots> \<le> 2 ^ 51 * 2 ^ k" by (intro mult_left_mono) simp_all
        finally show ?thesis .
      qed
      moreover have "(2::int) ^ j = 2 * 2 ^ 51 * 2 ^ k" by (simp add: jk power_add)
      ultimately show ?thesis by simp
    qed
    then have "?M div 2 ^ k \<le> ((3 * 2 ^ 51) * 2 ^ k) div 2 ^ k"
      by (intro zdiv_mono1) simp_all
    then have "?M div 2 ^ k \<le> 3 * 2 ^ 51" by simp
    then have up: "rne ?M k < 2 ^ 53" using rne_upper [of ?M k] by simp
    have "0 \<le> ?M div 2 ^ k" using M0 by (simp add: pos_imp_zdiv_nonneg_iff)
    then have lo: "0 \<le> rne ?M k" using rne_lower [of ?M k] by simp
    show ?thesis using sum r up lo by (simp add: double_trunc_nonneg)
  qed
qed

lemma round_scaled:
  "round (of_int m / of_int (2 ^ Suc j) * (100::rat)) = (m * 100 + 2 ^ j) div 2 ^ Suc j"
proof -
  have "of_int m / of_int (2 ^ Suc j) * (100::rat) + 1 / 2
        = of_int (m * 100 + 2 ^ j) / of_int (2 ^ Suc j)"
    by (simp add: field_simps)
  then show ?thesis
    unfolding round_def by (simp only: floor_divide_of_int_eq)
qed

lemma round_tiny:
  assumes "0 < m" "m < 2 ^ 24" "52 \<le> j"
  shows "round (of_int m / of_int (2 ^ Suc j) * (100::rat)) = 0"
proof -
  have "(2::int) ^ 52 \<le> 2 ^ j" using assms(3) by (intro power_increasing) simp_all
  then have "m * 100 + 2 ^ j < 2 ^ Suc j" "0 \<le> m * 100 + 2 ^ j" using assms(1,2) by simp_all
  then have "(m * 100 + 2 ^ j) div 2 ^ Suc j = 0" by (intro div_pos_pos_trivial) simp_all
  then show ?thesis by (simp only: round_scaled)
qed

lemma need_is_round:
  assumes "0 < m" "m < 2 ^ 24" "- 149 \<le> e" "fp_val (Fp m e) < 100"
  shows "double_trunc (double_add (double_mul (Fp m e) d_100) d_half)
         = round (fp_val (Fp m e) * 100)"
proof -
  have mul: "double_mul (Fp m e) d_100 = Fp (m * 100) e"
    using assms(1-3) by (intro mul_100_exact) simp_all
  show ?thesis
  proof (cases "0 \<le> e")
    case True
    then obtain n where e: "e = int n" using nonneg_int_cases by blast
    have "(of_int (m * 2 ^ n) :: rat) < of_int 100" using assms(4) by (simp add: fp_val_def e)
    then have lt: "m * 2 ^ n < 100" by (simp only: of_int_less_iff)
    have "round (fp_val (Fp m e) * 100) = round (of_int (m * 2 ^ n * 100) :: rat)"
      by (simp add: fp_val_def e)
    also have "\<dots> = m * 2 ^ n * 100" by (simp only: round_of_int)
    finally show ?thesis using need_nonneg_expo [OF assms(1) lt] mul by (simp add: e)
  next
    case False
    then obtain j where e: "e = - int (Suc j)"
      by (metis int_cases not_le of_nat_0_le_iff of_nat_Suc add.commute neg_int_cases linorder_not_less)
    have v: "fp_val (Fp m e) = of_int m / of_int (2 ^ Suc j)"
      by (simp add: fp_val_def e del: power_Suc of_nat_Suc)
    show ?thesis
    proof (cases "j \<le> 51")
      case True
      show ?thesis
        using need_small_neg_expo [OF assms(1,2) True] by (simp only: mul [unfolded e] v [unfolded e] e round_scaled)
    next
      case False
      then have j: "52 \<le> j" by simp
      have "int j \<le> 148" using assms(3) e by simp
      from need_tiny [OF assms(1,2) j this] round_tiny [OF assms(1,2) j]
      show ?thesis by (simp only: mul [unfolded e] v [unfolded e] e)
    qed
  qed
qed

lemma fp_le_zero: "fp_le x d_0 \<longleftrightarrow> fp_val x \<le> 0"
proof -
  have a: "fp_le x d_0 \<longleftrightarrow> mant x \<le> 0"
    by (simp add: fp_le_def d_0_def Let_def mult_le_0_iff)
  have p: "\<not> (2::rat) ^ k \<le> 0" for k by (simp add: not_le)
  have b: "fp_val x \<le> 0 \<longleftrightarrow> mant x \<le> 0"
    by (simp add: fp_val_def mult_le_0_iff divide_le_0_iff p)
  show ?thesis by (simp only: a b)
qed

lemma fp_le_hundred: "fp_le d_100 x \<longleftrightarrow> 100 \<le> fp_val x"
proof (cases "0 \<le> expo x")
  case True
  then have "fp_le d_100 x \<longleftrightarrow> 100 \<le> mant x * 2 ^ nat (expo x)"
    by (simp add: fp_le_def d_100_def Let_def min_def)
  also have "\<dots> \<longleftrightarrow> (of_int 100 :: rat) \<le> of_int (mant x * 2 ^ nat (expo x))"
    by (simp only: of_int_le_iff)
  finally show ?thesis using True by (simp add: fp_val_def)
next
  case False
  then have "fp_le d_100 x \<longleftrightarrow> 100 * 2 ^ nat (- expo x) \<le> mant x"
    by (simp add: fp_le_def d_100_def Let_def min_def)
  also have "\<dots> \<longleftrightarrow> (of_int (100 * 2 ^ nat (- expo x)) :: rat) \<le> of_int (mant x)"
    by (simp only: of_int_le_iff)
  also have "\<dots> \<longleftrightarrow> (100 :: rat) \<le> of_int (mant x) / of_int (2 ^ nat (- expo x))"
    by (simp add: pos_le_divide_eq)
  finally show ?thesis using False by (simp add: fp_val_def)
qed

lemma need_value:
  assumes "is_float32 c" "0 < fp_val c" "fp_val c < 100"
  shows "double_to_uint32 (double_add (double_mul c d_100) d_half)
           = word_of_int (round (fp_val c * 100))"
    and "0 \<le> round (fp_val c * 100)" and "round (fp_val c * 100) \<le> 10000"
proof -
  obtain m e where c: "c = Fp m e" by (cases c)
  have "0 < m" using assms(2) fp_le_zero [of c] by (simp add: c fp_le_def d_0_def Let_def mult_le_0_iff)
  moreover have "m < 2 ^ 24" "- 149 \<le> e" using assms(1) by (simp_all add: c is_float32_def abs_less_iff)
  ultimately have "double_trunc (double_add (double_mul (Fp m e) d_100) d_half)
         = round (fp_val (Fp m e) * 100)"
    using assms(3) unfolding c by (rule need_is_round)
  then show "double_to_uint32 (double_add (double_mul c d_100) d_half)
           = word_of_int (round (fp_val c * 100))"
    by (simp add: double_to_uint32_def c)
  have "round (0::rat) \<le> round (fp_val c * 100)" using assms(2) by (intro round_mono) simp
  then show "0 \<le> round (fp_val c * 100)" by simp
  have "round (fp_val c * 100) \<le> round (10000::rat)" using assms(3) by (intro round_mono) simp
  then show "round (fp_val c * 100) \<le> 10000" by simp
qed

lemma le_word_of_int:
  assumes "0 \<le> t" "t \<le> 10000"
  shows "(roll :: 32 word) \<le> word_of_int t \<longleftrightarrow> uint roll \<le> t"
proof -
  have "uint (word_of_int t :: 32 word) = t"
    using assms by (simp add: uint_word_of_int take_bit_int_eq_self)
  then show ?thesis by (simp add: word_le_def)
qed


text \<open>
  The model evaluates: a chance just below and just above 0.005 percent, and the smallest
  positive binary32 number, where the sum is rounded to one half.
\<close>

lemma need_examples:
  "double_to_uint32 (double_add (double_mul (Fp 5368709 (- 30)) d_100) d_half) = 0"
  "double_to_uint32 (double_add (double_mul (Fp 5368710 (- 30)) d_100) d_half) = 1"
  "double_add (double_mul (Fp 1 (- 149)) d_100) d_half = Fp 4503599627370496 (- 53)"
  by code_simp+

text \<open>
  The chance of the configuration is a binary32 number after every load of a file whose
  chance option is one: the default and the two bounds of the clamp are.
\<close>

lemma gConf_after_load:
  "gConf (LoadDroppedState (MaybeResetState (EnsureTable (s\<lparr>gConf := c\<rparr>)))) = c"
  by (simp add: LoadDroppedState_def MaybeResetState_def EnsureTable_def db_update_def
      split: option.splits)

lemma configured_chance_is_float32:
  assumes "\<forall>c. conf_chance file = Some c \<longrightarrow> is_float32 c"
  shows "is_float32 (chancePct (gConf (OnAfterConfigLoad s reload file)))"
proof -
  have "is_float32 (GetOption (conf_chance file) d_1)"
    using assms by (cases "conf_chance file") (simp_all add: GetOption_def d_1_def is_float32_def)
  moreover have "is_float32 d_0" "is_float32 d_100" by (simp_all add: d_0_def d_100_def is_float32_def)
  ultimately show ?thesis
    by (simp add: OnAfterConfigLoad_def Let_def gConf_after_load)
qed

section \<open>The statements the server reads\<close>

text \<open>
  A name with no NUL, no backslash and no single quote is read back as it is. In general the
  value read is no longer than the text consumed for it, and holds a quote only if that text
  does.
\<close>

lemma where_clause_shape:
  "where_clause \<noteq> []" "hd where_clause \<noteq> CHR 0x27" "CHR 0x00 \<notin> set where_clause"
  by (simp_all add: where_clause_def KEY_NAME_def)

lemma read_literal_plain:
  assumes "CHR 0x5C \<notin> set n" "CHR 0x27 \<notin> set n" "w \<noteq> []" "hd w \<noteq> CHR 0x27"
  shows "read_literal (n @ CHR 0x27 # w) = Some (n, w)"
  using assms
proof (induction n)
  case Nil
  then show ?case by (cases w) simp_all
next
  case (Cons c n)
  obtain d cs where t: "n @ CHR 0x27 # w = d # cs" by (cases "n @ CHR 0x27 # w") simp_all
  have "read_literal (d # cs) = Some (n, w)" using Cons by (simp flip: t)
  moreover have "c \<noteq> CHR 0x5C" "c \<noteq> CHR 0x27" using Cons.prems(1,2) by auto
  ultimately show ?case by (simp add: t)
qed

lemma name_literal_plain:
  assumes "CHR 0x00 \<notin> set n" "CHR 0x5C \<notin> set n" "CHR 0x27 \<notin> set n"
  shows "name_literal n = Some n"
proof -
  have "c_str (n @ [CHR 0x27] @ where_clause) = n @ CHR 0x27 # where_clause"
    unfolding c_str_def using assms(1) where_clause_shape(3)
    by auto
  moreover have "read_literal (n @ CHR 0x27 # where_clause) = Some (n, where_clause)"
    using assms(2,3) where_clause_shape(1,2) by (rule read_literal_plain)
  ultimately show ?thesis by (simp add: name_literal_def)
qed

lemma mysql_escape_shape:
  "length (mysql_escape d) \<le> 2"
  "d \<noteq> CHR 0x27 \<Longrightarrow> d \<noteq> CHR 0x22
     \<Longrightarrow> CHR 0x27 \<notin> set (mysql_escape d) \<and> CHR 0x22 \<notin> set (mysql_escape d)"
  by (auto simp add: mysql_escape_def)

lemma read_literal_shape:
  "read_literal xs = Some (v, rest) \<Longrightarrow>
     \<exists>body. xs = body @ CHR 0x27 # rest \<and> length v \<le> length body
       \<and> (CHR 0x27 \<notin> set body \<and> CHR 0x22 \<notin> set body
            \<longrightarrow> CHR 0x27 \<notin> set v \<and> CHR 0x22 \<notin> set v)"
proof (induction xs arbitrary: v rule: read_literal.induct)
  case 1
  then show ?case by simp
next
  case (2 c)
  then show ?case by (simp split: if_splits)
next
  case (3 c d cs)
  show ?case
  proof (cases "c = CHR 0x5C")
    case True
    with 3 obtain v' where r: "read_literal cs = Some (v', rest)" and v: "v = mysql_escape d @ v'"
      by auto
    from "3.IH"(1) [OF True r] obtain body where b: "cs = body @ CHR 0x27 # rest"
      "length v' \<le> length body"
      "CHR 0x27 \<notin> set body \<and> CHR 0x22 \<notin> set body \<longrightarrow> CHR 0x27 \<notin> set v' \<and> CHR 0x22 \<notin> set v'"
      by blast
    have "c # d # cs = (c # d # body) @ CHR 0x27 # rest" using b(1) by simp
    moreover have "length v \<le> length (c # d # body)"
      using b(2) mysql_escape_shape(1) [of d] by (simp add: v)
    moreover have "CHR 0x27 \<notin> set (c # d # body) \<and> CHR 0x22 \<notin> set (c # d # body)
            \<longrightarrow> CHR 0x27 \<notin> set v \<and> CHR 0x22 \<notin> set v"
      using b(3) mysql_escape_shape(2) [of d] by (auto simp add: v)
    ultimately show ?thesis by blast
  next
    case False
    show ?thesis
    proof (cases "c = CHR 0x27")
      case q: True
      show ?thesis
      proof (cases "d = CHR 0x27")
        case True
        with 3 False q obtain v' where r: "read_literal cs = Some (v', rest)"
          and v: "v = CHR 0x27 # v'" by auto
        from "3.IH"(2) [OF False q True r] obtain body where b: "cs = body @ CHR 0x27 # rest"
          "length v' \<le> length body" by blast
        have "c # d # cs = (c # d # body) @ CHR 0x27 # rest" using b(1) by simp
        moreover have "length v \<le> length (c # d # body)" using b(2) by (simp add: v)
        moreover have "CHR 0x27 \<in> set (c # d # body)" using q by simp
        ultimately show ?thesis by blast
      next
        case nd: False
        with 3 False q have "v = []" "rest = d # cs" by auto
        then have "c # d # cs = [] @ CHR 0x27 # rest" "length v \<le> length ([]::string)"
          using q by simp_all
        then show ?thesis using \<open>v = []\<close> by (intro exI [of _ "[]"]) simp
      qed
    next
      case nq: False
      with 3 False obtain v' where r: "read_literal (d # cs) = Some (v', rest)"
        and v: "v = c # v'" by auto
      from "3.IH"(3) [OF False nq r] obtain body where b: "d # cs = body @ CHR 0x27 # rest"
        "length v' \<le> length body"
        "CHR 0x27 \<notin> set body \<and> CHR 0x22 \<notin> set body \<longrightarrow> CHR 0x27 \<notin> set v' \<and> CHR 0x22 \<notin> set v'"
        by blast
      have "c # d # cs = (c # body) @ CHR 0x27 # rest" using b(1) by simp
      moreover have "length v \<le> length (c # body)" using b(2) by (simp add: v)
      moreover have "CHR 0x27 \<notin> set (c # body) \<and> CHR 0x22 \<notin> set (c # body)
            \<longrightarrow> CHR 0x27 \<notin> set v \<and> CHR 0x22 \<notin> set v"
        using b(3) by (auto simp add: v)
      ultimately show ?thesis by blast
    qed
  qed
qed

lemma name_literal_bounds:
  assumes "name_literal n = Some v" "CHR 0x27 \<notin> set n" "CHR 0x22 \<notin> set n"
  shows "length v \<le> length n \<and> CHR 0x27 \<notin> set v \<and> CHR 0x22 \<notin> set v"
proof -
  let ?t = "n @ [CHR 0x27] @ where_clause"
  from assms(1) have r: "read_literal (c_str ?t) = Some (v, where_clause)"
    by (auto simp add: name_literal_def split: option.splits if_splits)
  from read_literal_shape [OF r] obtain body where
    b: "c_str ?t = body @ CHR 0x27 # where_clause" "length v \<le> length body"
      "CHR 0x27 \<notin> set body \<and> CHR 0x22 \<notin> set body \<longrightarrow> CHR 0x27 \<notin> set v \<and> CHR 0x22 \<notin> set v"
    by blast
  have "?t = c_str ?t @ dropWhile (\<lambda>ch. ch \<noteq> CHR 0x00) ?t"
    by (simp add: c_str_def)
  then have "n @ (CHR 0x27 # where_clause)
      = body @ (CHR 0x27 # where_clause @ dropWhile (\<lambda>ch. ch \<noteq> CHR 0x00) ?t)"
    using b(1) by simp
  then obtain us where
    "n = body @ us \<or> (n @ us = body
        \<and> CHR 0x27 # where_clause
            = us @ CHR 0x27 # where_clause @ dropWhile (\<lambda>ch. ch \<noteq> CHR 0x00) ?t)"
    unfolding append_eq_append_conv2 by blast
  then have "\<exists>us. n = body @ us"
  proof
    assume "n = body @ us" then show ?thesis by blast
  next
    assume a: "n @ us = body
        \<and> CHR 0x27 # where_clause
            = us @ CHR 0x27 # where_clause @ dropWhile (\<lambda>ch. ch \<noteq> CHR 0x00) ?t"
    then have "length (CHR 0x27 # where_clause)
        = length (us @ CHR 0x27 # where_clause @ dropWhile (\<lambda>ch. ch \<noteq> CHR 0x00) ?t)"
      by simp
    then have "us = []" by simp
    then show ?thesis using a by simp
  qed
  then obtain us where n: "n = body @ us" by blast
  have "CHR 0x27 \<notin> set body \<and> CHR 0x22 \<notin> set body" using assms(2,3) by (simp add: n)
  then show ?thesis using b(2,3) by (simp add: n)
qed

lemma sanitized_name_take:
  "sanitized_name name
     = map (\<lambda>ch. if ch = CHR 0x27 \<or> ch = CHR 0x22 then CHR ''_'' else ch) (take 63 name)"
  by (simp add: sanitized_name_def)

lemma sanitized_name_shape:
  "length (sanitized_name name) \<le> 63"
  "CHR 0x27 \<notin> set (sanitized_name name)" "CHR 0x22 \<notin> set (sanitized_name name)"
  by (auto simp add: sanitized_name_def)

lemma sanitized_name_plain:
  assumes "CHR 0x00 \<notin> set (take 63 name)" "CHR 0x5C \<notin> set (take 63 name)"
  shows "name_literal (sanitized_name name) = Some (sanitized_name name)"
proof -
  have "CHR 0x00 \<notin> set (sanitized_name name)" "CHR 0x5C \<notin> set (sanitized_name name)"
    using assms by (auto simp add: sanitized_name_take)
  then show ?thesis using sanitized_name_shape(2) by (rule name_literal_plain)
qed

lemma name_literal_examples:
  "name_literal ''Alice'' = Some ''Alice''"
  "name_literal ''Bob'' = Some ''Bob''"
  "name_literal [CHR ''A'', CHR 0x07] = Some [CHR ''A'', CHR 0x07]"
  "name_literal [CHR ''A'', CHR 0x5C] = None"
  "name_literal [CHR ''A'', CHR 0x00, CHR ''B''] = None"
  "name_literal [CHR ''A'', CHR 0x5C, CHR ''n''] = Some [CHR ''A'', CHR 0x0A]"
  by (simp_all add: name_literal_def c_str_def where_clause_def KEY_NAME_def mysql_escape_def)

section \<open>Properties of the module\<close>

subsection \<open>The roll\<close>

text \<open>
  C2: for every configured chance (a binary32 number), the roll returns false when the chance
  is at most 0, true when it is at least 100, and otherwise true exactly when the draw of
  \<^verbatim>\<open>urand(1, 10000)\<close> is at most \<open>round (chance * 100)\<close>: \<^verbatim>\<open>RollDrop\<close> computes what the roll
  of the specification computes on the exact value of the chance and the drawn number. The
  distribution of the draw is the host's.
\<close>

theorem RollDrop_refines_spec:
  assumes "is_float32 (chancePct conf)"
  shows "RollDrop conf roll = spec_Roll (fp_val (chancePct conf)) (uint roll)"
proof (cases "fp_val (chancePct conf) \<le> 0 \<or> 100 \<le> fp_val (chancePct conf)")
  case True
  then show ?thesis by (auto simp add: RollDrop_def spec_Roll_def fp_le_zero fp_le_hundred)
next
  case False
  then have r: "0 < fp_val (chancePct conf)" "fp_val (chancePct conf) < 100" by simp_all
  note n = need_value [OF assms r]
  show ?thesis using False
    by (simp add: RollDrop_def spec_Roll_def fp_le_zero fp_le_hundred Let_def n(1)
        le_word_of_int [OF n(2,3)])
qed

theorem RollDrop_refines_spec_witness:
  "is_float32 (chancePct ex_conf_1pct) \<and> fp_val (chancePct ex_conf_1pct) = 1
   \<and> RollDrop ex_conf_1pct 100 \<and> \<not> RollDrop ex_conf_1pct 101"
  using RollDrop_refines_spec [of ex_conf_1pct 100] RollDrop_refines_spec [of ex_conf_1pct 101]
  by (simp add: ex_conf_1pct_def ex_conf_def d_1_def is_float32_def spec_Roll_def fp_val_def)


text \<open>
  C10: for every configured chance strictly between 0 and 0.005 percent, the threshold
  \<^verbatim>\<open>static_cast<uint32>(chancePct * 100.0 + 0.5)\<close> is 0, and no draw from 1 up passes the roll.
\<close>

theorem tiny_chance_never_passes:
  assumes "is_float32 (chancePct conf)" "0 < fp_val (chancePct conf)"
    "fp_val (chancePct conf) < 5 / 1000" "1 \<le> roll"
  shows "double_to_uint32 (double_add (double_mul (chancePct conf) d_100) d_half) = 0
         \<and> \<not> RollDrop conf roll"
proof -
  have lt: "fp_val (chancePct conf) < 100" using assms(3) by simp
  have "round (fp_val (chancePct conf) * 100) = 0"
    unfolding round_def using assms(2,3) by (intro floor_unique) simp_all
  then have need: "double_to_uint32 (double_add (double_mul (chancePct conf) d_100) d_half) = 0"
    using need_value(1) [OF assms(1,2) lt] by simp
  have "\<not> roll \<le> 0" using assms(4) by (simp add: word_le_def) 
  then show ?thesis using need assms(2) lt
    by (simp add: RollDrop_def fp_le_zero fp_le_hundred Let_def)
qed

theorem tiny_chance_never_passes_witness:
  "is_float32 (chancePct ex_conf_tiny) \<and> 0 < fp_val (chancePct ex_conf_tiny)
   \<and> fp_val (chancePct ex_conf_tiny) < 5 / 1000 \<and> (1 :: 32 word) \<le> 1
   \<and> double_to_uint32 (double_add (double_mul (chancePct ex_conf_tiny) d_100) d_half) = 0
   \<and> \<not> RollDrop ex_conf_tiny 1"
  using tiny_chance_never_passes [of ex_conf_tiny 1]
  by (simp add: ex_conf_tiny_def ex_conf_def is_float32_def fp_val_def)


subsection \<open>The recording operations\<close>

text \<open>
  C3, as amended: while repeat mode is active, the kill-phase recording operation returns at
  once and changes nothing: the persisted flag, the persisted timestamp and actor, and the
  cache all stay as they were.
\<close>

theorem repeat_mode_records_nothing:
  assumes "allowRepeat (gConf s)"
  shows "PersistDropped_KillPhase s killer now = s \<and> PersistDropped s killer now = s"
  using assms by (simp add: PersistDropped_def PersistDropped_KillPhase_def)

theorem repeat_mode_records_nothing_witness:
  "allowRepeat (gConf ex_repeat)
   \<and> PersistDropped_KillPhase ex_repeat (Some alice) 1700000000 = ex_repeat
   \<and> PersistDropped ex_repeat (Some alice) 1700000000 = ex_repeat"
  using repeat_mode_records_nothing [of ex_repeat "Some alice" 1700000000]
  by (simp add: ex_defs)


text \<open>
  As first worded the property had the timestamp and the actor updated in repeat mode. In
  repeat mode, a call at time 1700000000 for Alice leaves the row at timestamp 0 and no actor.
\<close>

theorem repeat_mode_kill_record_counterexample:
  "allowRepeat (gConf ex_repeat)
   \<and> db_row ex_repeat = Some \<lparr>dropped = 0, last_drop_time = 0, last_killer = None\<rparr>
   \<and> db_row (PersistDropped_KillPhase ex_repeat (Some alice) 1700000000)
       = Some \<lparr>dropped = 0, last_drop_time = 0, last_killer = None\<rparr>"
  by (simp add: PersistDropped_KillPhase_def ex_repeat_def ex_world_def ex_conf_def)


text \<open>
  C8, as amended: the loot-phase recording operation never changes the persisted flag. With
  repeat mode off and an actor name that is not empty and holds no NUL and no backslash among
  its first 63 characters, it sets the timestamp to the time of the call and the actor to
  those characters with the quotes replaced; in repeat mode, or for an empty name, it changes
  nothing.
\<close>

theorem loot_phase_record:
  "map_option dropped (db_row (PersistDropped_LootPhase s looter now)) = map_option dropped (db_row s)
   \<and> (\<not> allowRepeat (gConf s) \<and> GetName looter \<noteq> []
        \<and> CHR 0x00 \<notin> set (take 63 (GetName looter))
        \<and> CHR 0x5C \<notin> set (take 63 (GetName looter)) \<longrightarrow>
        PersistDropped_LootPhase s looter now
          = s\<lparr>db_row := map_option (\<lambda>r. r\<lparr>last_drop_time := now,
                    last_killer := Some (sanitized_name (GetName looter))\<rparr>) (db_row s)\<rparr>)
   \<and> (allowRepeat (gConf s) \<or> GetName looter = [] \<longrightarrow> PersistDropped_LootPhase s looter now = s)"
proof (intro conjI impI)
  show "map_option dropped (db_row (PersistDropped_LootPhase s looter now))
          = map_option dropped (db_row s)"
    by (cases "db_row s")
       (simp_all add: PersistDropped_LootPhase_def db_update_named_def db_update_def Let_def
          split: option.splits)
next
  assume a: "\<not> allowRepeat (gConf s) \<and> GetName looter \<noteq> []
        \<and> CHR 0x00 \<notin> set (take 63 (GetName looter))
        \<and> CHR 0x5C \<notin> set (take 63 (GetName looter))"
  then have "name_literal (sanitized_name (GetName looter)) = Some (sanitized_name (GetName looter))"
    by (intro sanitized_name_plain) simp_all
  then show "PersistDropped_LootPhase s looter now
          = s\<lparr>db_row := map_option (\<lambda>r. r\<lparr>last_drop_time := now,
                    last_killer := Some (sanitized_name (GetName looter))\<rparr>) (db_row s)\<rparr>"
    using a by (simp add: PersistDropped_LootPhase_def db_update_named_def db_update_def Let_def)
next
  assume "allowRepeat (gConf s) \<or> GetName looter = []"
  then show "PersistDropped_LootPhase s looter now = s"
    by (auto simp add: PersistDropped_LootPhase_def Let_def)
qed

theorem loot_phase_record_witness:
  "\<not> allowRepeat (gConf ex_granted) \<and> GetName (Some bob) = ''Bob''
   \<and> CHR 0x00 \<notin> set (take 63 ''Bob'') \<and> CHR 0x5C \<notin> set (take 63 ''Bob'')
   \<and> db_row (PersistDropped_LootPhase ex_granted (Some bob) 1700000200)
       = Some \<lparr>dropped = 1, last_drop_time = 1700000200, last_killer = Some ''Bob''\<rparr>
   \<and> allowRepeat (gConf ex_repeat)
   \<and> PersistDropped_LootPhase ex_repeat (Some bob) 1700000200 = ex_repeat"
  using loot_phase_record [of ex_granted "Some bob" 1700000200]
    loot_phase_record [of ex_repeat "Some bob" 1700000200]
  by (simp add: ex_defs GetName_def sanitized_name_def)

text \<open>
  As first worded the property had every call update the timestamp and the actor. In repeat
  mode the call, and the loot hook around it, leave the row at timestamp 0 and no actor.
\<close>

theorem loot_phase_record_counterexample:
  "db_row (PersistDropped_LootPhase ex_repeat (Some alice) 1700000000)
       = Some \<lparr>dropped = 0, last_drop_time = 0, last_killer = None\<rparr>
   \<and> db_row (OnPlayerLootItem ex_repeat (Some alice) (Some \<lparr>item_entry = 17782\<rparr>) 1 (CreatureGuid 7) 1700000000)
       = Some \<lparr>dropped = 0, last_drop_time = 0, last_killer = None\<rparr>"
  by (simp add: PersistDropped_LootPhase_def OnPlayerLootItem_def AnnounceDrop_PlayerLoot_def
      SendGlobalMessage_def ITEM_TALISMAN_def ex_repeat_def ex_world_def ex_conf_def Let_def)

text \<open>
  With repeat mode off, a name ending in a backslash gives a statement the server rejects,
  and the row stays as it is.
\<close>

lemma loot_phase_backslash_example:
  "db_row (PersistDropped_LootPhase ex_granted (Some \<lparr>player_name = [CHR ''B'', CHR 0x5C]\<rparr>)
             1700000200)
     = db_row ex_granted"
  by (simp add: PersistDropped_LootPhase_def db_update_named_def GetName_def sanitized_name_def
      name_literal_def c_str_def where_clause_def KEY_NAME_def mysql_escape_def ex_defs Let_def)

text \<open>
  C9, as amended: the actor the recording operations write to the row is the value the server
  reads from the statement, and every such value is at most 63 characters long and holds no
  single and no double quote: the module keeps the first 63 characters of the name and
  replaces every quote among them by an underscore, and it replaces no other character, so
  no control character.
\<close>

theorem stored_actor_name:
  "sanitized_name name
       = map (\<lambda>ch. if ch = CHR 0x27 \<or> ch = CHR 0x22 then CHR ''_'' else ch) (take 63 name)
   \<and> (\<forall>v. name_literal (sanitized_name name) = Some v \<longrightarrow>
          length v \<le> 63 \<and> CHR 0x27 \<notin> set v \<and> CHR 0x22 \<notin> set v)
   \<and> (\<not> allowRepeat (gConf s) \<and> GetName p \<noteq> [] \<longrightarrow>
        map_option last_killer (db_row (PersistDropped_KillPhase s p now))
          = (case name_literal (sanitized_name (GetName p)) of
               Some v \<Rightarrow> map_option (\<lambda>_. Some v) (db_row s)
             | None \<Rightarrow> map_option last_killer (db_row s))
      \<and> map_option last_killer (db_row (PersistDropped_LootPhase s p now))
          = (case name_literal (sanitized_name (GetName p)) of
               Some v \<Rightarrow> map_option (\<lambda>_. Some v) (db_row s)
             | None \<Rightarrow> map_option last_killer (db_row s)))"
proof (intro conjI allI impI)
  show "sanitized_name name
       = map (\<lambda>ch. if ch = CHR 0x27 \<or> ch = CHR 0x22 then CHR ''_'' else ch) (take 63 name)"
    by (rule sanitized_name_take)
next
  fix v assume "name_literal (sanitized_name name) = Some v"
  from name_literal_bounds [OF this sanitized_name_shape(2,3)] sanitized_name_shape(1) [of name]
  show "length v \<le> 63" and "CHR 0x27 \<notin> set v" and "CHR 0x22 \<notin> set v" by simp_all
next
  assume a: "\<not> allowRepeat (gConf s) \<and> GetName p \<noteq> []"
  then show "map_option last_killer (db_row (PersistDropped_KillPhase s p now))
          = (case name_literal (sanitized_name (GetName p)) of
               Some v \<Rightarrow> map_option (\<lambda>_. Some v) (db_row s)
             | None \<Rightarrow> map_option last_killer (db_row s))"
    by (cases "db_row s")
       (simp_all add: PersistDropped_KillPhase_def db_update_named_def db_update_def Let_def
          split: option.splits)
  from a show "map_option last_killer (db_row (PersistDropped_LootPhase s p now))
          = (case name_literal (sanitized_name (GetName p)) of
               Some v \<Rightarrow> map_option (\<lambda>_. Some v) (db_row s)
             | None \<Rightarrow> map_option last_killer (db_row s))"
    by (cases "db_row s")
       (simp_all add: PersistDropped_LootPhase_def db_update_named_def db_update_def Let_def
          split: option.splits)
qed

theorem stored_actor_name_witness:
  "\<not> allowRepeat (gConf ex_world) \<and> GetName (Some \<lparr>player_name = ''O'Neil''\<rparr>) = ''O'Neil''
   \<and> sanitized_name ''O'Neil'' = ''O_Neil''
   \<and> name_literal (sanitized_name ''O'Neil'') = Some ''O_Neil''
   \<and> map_option last_killer
        (db_row (PersistDropped_KillPhase ex_world (Some \<lparr>player_name = ''O'Neil''\<rparr>) 5))
       = Some (Some ''O_Neil'')"
proof -
  have n: "sanitized_name ''O'Neil'' = ''O_Neil''" by (simp add: sanitized_name_def)
  have l: "name_literal ''O_Neil'' = Some ''O_Neil''" by (rule name_literal_plain) simp_all
  have g: "GetName (Some \<lparr>player_name = ''O'Neil''\<rparr>) = ''O'Neil''" by (simp add: GetName_def)
  have r: "\<not> allowRepeat (gConf ex_world)" by (simp add: ex_defs)
  have d: "db_row ex_world = Some \<lparr>dropped = 0, last_drop_time = 0, last_killer = None\<rparr>"
    by (simp add: ex_defs)
  from stored_actor_name [of "''O'Neil''" ex_world "Some \<lparr>player_name = ''O'Neil''\<rparr>" 5]
  have "map_option last_killer
          (db_row (PersistDropped_KillPhase ex_world (Some \<lparr>player_name = ''O'Neil''\<rparr>) 5))
        = (case name_literal (sanitized_name (GetName (Some \<lparr>player_name = ''O'Neil''\<rparr>))) of
             Some v \<Rightarrow> map_option (\<lambda>_. Some v) (db_row ex_world)
           | None \<Rightarrow> map_option last_killer (db_row ex_world))"
    using r g by simp
  then show ?thesis using n l g r d by simp
qed

text \<open>
  As first worded the property had the control characters replaced too. The name made of
  ``A'' and the control character BEL is written to the row as it is.
\<close>

theorem control_character_kept_counterexample:
  "is_control (CHR 0x07)
   \<and> db_row (PersistDropped_KillPhase ex_world (Some \<lparr>player_name = [CHR ''A'', CHR 0x07]\<rparr>) 5)
       = Some \<lparr>dropped = 1, last_drop_time = 5, last_killer = Some [CHR ''A'', CHR 0x07]\<rparr>"
  by (simp add: is_control_def PersistDropped_KillPhase_def sanitized_name_def GetName_def
      db_update_named_def name_literal_examples db_update_def ex_world_def ex_conf_def Let_def)

subsection \<open>The kill occurrence\<close>

lemma LootHasItem_iff:
  "LootHasItem (Some l) i \<longleftrightarrow> (\<exists>it \<in> set (items l) \<union> set (quest_items l). itemid it = i)"
  by (auto simp add: LootHasItem_def list_ex_iff)


text \<open>
  C6: a kill occurrence whose container already holds the reward item, among its normal items
  or its quest items, leaves the container unchanged, in both files of the module: the whole
  state is as before.
\<close>

theorem held_reward_blocks_kill:
  assumes "\<exists>it \<in> set (items (loot (creatures s a))) \<union> set (quest_items (loot (creatures s a))).
             itemid it = ITEM_TALISMAN"
  shows "OnPlayerCreatureKill s killer (Some a) roll now = s
         \<and> OnPlayerCreatureKill_talisman s killer (Some a) roll now = s"
  using assms
  by (simp add: OnPlayerCreatureKill_def OnPlayerCreatureKill_talisman_def LootHasItem_iff Let_def)

theorem held_reward_blocks_kill_witness:
  "itemid \<lparr>itemid = 17782, count = 1\<rparr> = ITEM_TALISMAN
   \<and> items (loot (creatures ex_holding 3)) = [\<lparr>itemid = 17782, count = 1\<rparr>]
   \<and> OnPlayerCreatureKill ex_holding (Some bob) (Some 3) 7 1700000100 = ex_holding
   \<and> OnPlayerCreatureKill_talisman ex_holding (Some bob) (Some 3) 7 1700000100 = ex_holding"
proof -
  have i: "items (loot (creatures ex_holding 3)) = [\<lparr>itemid = 17782, count = 1\<rparr>]"
    by (simp add: ex_defs hook_defs)
  then have "\<exists>it \<in> set (items (loot (creatures ex_holding 3)))
                  \<union> set (quest_items (loot (creatures ex_holding 3))).
               itemid it = ITEM_TALISMAN"
    by (simp add: ITEM_TALISMAN_def)
  from held_reward_blocks_kill [OF this, of "Some bob" 7 1700000100]
  show ?thesis using i by (simp add: ITEM_TALISMAN_def)
qed


lemma kill_phase_effect:
  assumes "\<not> allowRepeat (gConf t)"
  shows "gConf (PersistDropped_KillPhase t killer now) = gConf t
        \<and> gAlreadyDropped (PersistDropped_KillPhase t killer now)
        \<and> creatures (PersistDropped_KillPhase t killer now) = creatures t
        \<and> (CHR 0x00 \<notin> set (take 63 (GetName killer))
             \<and> CHR 0x5C \<notin> set (take 63 (GetName killer)) \<longrightarrow>
            (\<forall>r. db_row (PersistDropped_KillPhase t killer now) = Some r \<longrightarrow> dropped r = 1))"
proof (cases "GetName killer = []")
  case True
  then show ?thesis using assms
    by (cases "db_row t") (simp_all add: PersistDropped_KillPhase_def db_update_def Let_def)
next
  case False
  have u: "gConf (PersistDropped_KillPhase t killer now) = gConf t
        \<and> gAlreadyDropped (PersistDropped_KillPhase t killer now)
        \<and> creatures (PersistDropped_KillPhase t killer now) = creatures t"
    using assms
    by (simp add: PersistDropped_KillPhase_def db_update_named_def db_update_def Let_def
        split: option.splits)
  have "\<forall>r. db_row (PersistDropped_KillPhase t killer now) = Some r \<longrightarrow> dropped r = 1"
    if "CHR 0x00 \<notin> set (take 63 (GetName killer))" "CHR 0x5C \<notin> set (take 63 (GetName killer))"
  proof -
    have "name_literal (sanitized_name (GetName killer)) = Some (sanitized_name (GetName killer))"
      using that by (rule sanitized_name_plain)
    then show ?thesis using assms False
      by (cases "db_row t")
         (simp_all add: PersistDropped_KillPhase_def db_update_named_def db_update_def Let_def)
  qed
  then show ?thesis using u by blast
qed

lemma kill_step_cases:
  assumes "\<not> allowRepeat (gConf s)" "is_kill e"
  shows "step v s e = s
         \<or> (gConf (step v s e) = gConf s \<and> gAlreadyDropped (step v s e)
            \<and> (plain_killer e \<longrightarrow> (\<forall>r. db_row (step v s e) = Some r \<longrightarrow> dropped r = 1))
            \<and> (\<exists>a. creatures (step v s e) = (creatures s)(a := with_reward (creatures s a))))"
proof -
  obtain killer killed roll now where e: "e = CreatureKill killer killed roll now"
    using assms(2) by (cases e) simp_all
  let ?t = "s\<lparr>creatures := (creatures s)(the killed := with_reward (creatures s (the killed)))\<rparr>"
  have t: "\<not> allowRepeat (gConf ?t)" using assms(1) by simp
  note p = kill_phase_effect [OF t, of killer now]
  show ?thesis
  proof (cases v)
    case TwoPhase
    show ?thesis
      using assms(1) p
      by (auto simp add: e TwoPhase OnPlayerCreatureKill_def Let_def AddOneToLoot_def with_reward_def)
  next
    case SinglePhase
    show ?thesis
      using assms(1) p
      by (auto simp add: e SinglePhase OnPlayerCreatureKill_talisman_def Let_def AddOneToLoot_def
          with_reward_def PersistDropped_def AnnounceDrop_def SendGlobalMessage_def)
  qed
qed

lemma kill_step_granted:
  assumes "\<not> allowRepeat (gConf s)" "gAlreadyDropped s" "is_kill e"
  shows "step v s e = s"
proof -
  obtain killer killed roll now where e: "e = CreatureKill killer killed roll now"
    using assms(3) by (cases e) simp_all
  show ?thesis using assms(1,2)
    by (cases v) (simp_all add: e OnPlayerCreatureKill_def OnPlayerCreatureKill_talisman_def Let_def)
qed

lemma run_Cons: "run v s (e # es) = run v (step v s e) es"
  by (simp add: run_def)

lemma run_append: "run v s (es1 @ es2) = run v (run v s es1) es2"
  by (simp add: run_def)

lemma run_granted:
  assumes "\<not> allowRepeat (gConf s)" "gAlreadyDropped s" "\<forall>e\<in>set es. is_kill e"
  shows "run v s es = s"
  using assms(3) by (induction es) (simp_all add: run_def kill_step_granted [OF assms(1,2)])

lemma run_kills_cases:
  assumes "\<not> allowRepeat (gConf s)" "\<forall>e\<in>set es. is_kill e"
  shows "creatures (run v s es) = creatures s
         \<or> (gConf (run v s es) = gConf s \<and> gAlreadyDropped (run v s es)
            \<and> ((\<forall>e\<in>set es. plain_killer e) \<longrightarrow>
                 (\<forall>r. db_row (run v s es) = Some r \<longrightarrow> dropped r = 1))
            \<and> (\<exists>a. creatures (run v s es) = (creatures s)(a := with_reward (creatures s a))))"
  using assms
proof (induction es arbitrary: s)
  case Nil
  then show ?case by (simp add: run_def)
next
  case (Cons e es)
  from Cons.prems have k: "is_kill e" and ks: "\<forall>e\<in>set es. is_kill e" by simp_all
  from kill_step_cases [OF Cons.prems(1) k, of v]
  show ?case
  proof
    assume "step v s e = s"
    then show ?thesis using Cons.IH [OF Cons.prems(1) ks] by (auto simp add: run_Cons)
  next
    assume a: "gConf (step v s e) = gConf s \<and> gAlreadyDropped (step v s e)
            \<and> (plain_killer e \<longrightarrow> (\<forall>r. db_row (step v s e) = Some r \<longrightarrow> dropped r = 1))
            \<and> (\<exists>a. creatures (step v s e) = (creatures s)(a := with_reward (creatures s a)))"
    then have "run v (step v s e) es = step v s e"
      using Cons.prems(1) ks by (intro run_granted) simp_all
    then have r: "run v s (e # es) = step v s e" by (simp only: run_Cons)
    have "(\<forall>x\<in>set (e # es). plain_killer x) \<longrightarrow>
            (\<forall>r. db_row (step v s e) = Some r \<longrightarrow> dropped r = 1)"
      using a by simp
    then show ?thesis unfolding r using a by blast
  qed
qed

text \<open>
  With repeat mode off, in both files of the module, after any sequence of kill occurrences
  the creatures are as at the start, or as at the start but for one creature whose container
  received the reward item once. From the first occurrence on that changed a container the
  cache is true for the rest of the sequence, and so is the persisted flag of the row if the
  killers up to there have plain names.
\<close>

lemma kills_insert_at_most_once:
  assumes "\<not> allowRepeat (gConf s)" "\<forall>e\<in>set es. is_kill e"
  shows "(creatures (run v s es) = creatures s
          \<or> (\<exists>a. creatures (run v s es) = (creatures s)(a := with_reward (creatures s a))))
       \<and> (\<forall>es1 es2 es3. es = es1 @ es2 @ es3 \<longrightarrow> creatures (run v s es1) \<noteq> creatures s \<longrightarrow>
             gAlreadyDropped (run v s (es1 @ es2))
             \<and> ((\<forall>e\<in>set es1. plain_killer e) \<longrightarrow>
                  (\<forall>r. db_row (run v s (es1 @ es2)) = Some r \<longrightarrow> dropped r = 1)))"
proof (intro conjI allI impI)
  show "creatures (run v s es) = creatures s
          \<or> (\<exists>a. creatures (run v s es) = (creatures s)(a := with_reward (creatures s a)))"
    using run_kills_cases [OF assms, of v] by blast
next
  fix es1 es2 es3
  assume es: "es = es1 @ es2 @ es3" and ch: "creatures (run v s es1) \<noteq> creatures s"
  have k1: "\<forall>e\<in>set es1. is_kill e" and k2: "\<forall>e\<in>set es2. is_kill e"
    using assms(2) es by simp_all
  from run_kills_cases [OF assms(1) k1, of v] ch
  have g: "gConf (run v s es1) = gConf s" "gAlreadyDropped (run v s es1)"
    "(\<forall>e\<in>set es1. plain_killer e) \<longrightarrow>
       (\<forall>r. db_row (run v s es1) = Some r \<longrightarrow> dropped r = 1)"
    by (blast, blast, blast)
  have "\<not> allowRepeat (gConf (run v s es1))" using g(1) assms(1) by simp
  then have "run v (run v s es1) es2 = run v s es1"
    using g(2) k2 by (rule run_granted)
  then have eq: "run v s (es1 @ es2) = run v s es1" by (simp add: run_append)
  show "gAlreadyDropped (run v s (es1 @ es2))" using g(2) by (simp only: eq)
  fix r assume "\<forall>e\<in>set es1. plain_killer e" "db_row (run v s (es1 @ es2)) = Some r"
  then show "dropped r = 1" using g(3) by (simp add: eq)
qed

text \<open>
  C1: with repeat mode off, a sequence of kill occurrences puts the reward item into a
  container at most once, and the granted flag of the gate is true from the first insertion
  on. The module keeps the insertions to one and sets its cache, but it misses the persisted
  flag when the name of the killer ends in a backslash: the statement it builds is not well
  formed, and after the kill the container of creature 3 holds the item, the cache is true
  and the row still has the flag 0, in both files of the module.
\<close>

theorem backslash_killer_grant_not_persisted:
  "\<not> allowRepeat (gConf ex_world) \<and> is_kill ex_kill_backslash
   \<and> loot (creatures (run TwoPhase ex_world [ex_kill_backslash]) 3)
       = \<lparr>items = [\<lparr>itemid = 17782, count = 1\<rparr>], quest_items = []\<rparr>
   \<and> gAlreadyDropped (run TwoPhase ex_world [ex_kill_backslash])
   \<and> db_row (run TwoPhase ex_world [ex_kill_backslash])
       = Some \<lparr>dropped = 0, last_drop_time = 0, last_killer = None\<rparr>
   \<and> loot (creatures (run SinglePhase ex_world [ex_kill_backslash]) 3)
       = \<lparr>items = [\<lparr>itemid = 17782, count = 1\<rparr>], quest_items = []\<rparr>
   \<and> db_row (run SinglePhase ex_world [ex_kill_backslash])
       = Some \<lparr>dropped = 0, last_drop_time = 0, last_killer = None\<rparr>"
  by (simp add: run_def ex_defs hook_defs sanitized_name_def name_literal_examples)

text \<open>
  The row is what the next configuration load reads: after it the cache is false again, and
  the kill of another creature puts a second item into a container.
\<close>

lemma second_grant_after_reload_example:
  "\<not> gAlreadyDropped (run TwoPhase ex_world [ex_kill_backslash, ConfigLoad True ex_file])
   \<and> loot (creatures
        (run TwoPhase ex_world [ex_kill_backslash, ConfigLoad True ex_file, ex_kill_bob]) 3)
       = \<lparr>items = [\<lparr>itemid = 17782, count = 1\<rparr>], quest_items = []\<rparr>
   \<and> loot (creatures
        (run TwoPhase ex_world [ex_kill_backslash, ConfigLoad True ex_file, ex_kill_bob]) 4)
       = \<lparr>items = [\<lparr>itemid = 17782, count = 1\<rparr>], quest_items = []\<rparr>"
  by (simp add: run_def ex_defs hook_defs sanitized_name_def name_literal_examples)

subsection \<open>Announcements\<close>

lemma messages_KillPhase: "global_messages (PersistDropped_KillPhase s p now) = global_messages s"
  by (simp add: PersistDropped_KillPhase_def db_update_named_def db_update_def Let_def
      split: option.splits)

lemma creatures_KillPhase: "creatures (PersistDropped_KillPhase s p now) = creatures s"
  by (simp add: PersistDropped_KillPhase_def db_update_named_def db_update_def Let_def
      split: option.splits)

lemma messages_LootPhase: "global_messages (PersistDropped_LootPhase s p now) = global_messages s"
  by (simp add: PersistDropped_LootPhase_def db_update_named_def db_update_def Let_def
      split: option.splits)

lemma messages_ConfigLoad: "global_messages (OnAfterConfigLoad s reload file) = global_messages s"
  by (simp add: OnAfterConfigLoad_def Let_def LoadDroppedState_def MaybeResetState_def
      EnsureTable_def db_update_def split: option.splits)


text \<open>
  C4, as amended: in the two-phase file no kill occurrence and no configuration load sends a
  server-wide message; a loot-collection occurrence sends exactly one, naming the collector
  and the source, when the module is enabled, the looter and the item are present and the item
  is the reward item, and sends none otherwise. In \<^verbatim>\<open>mod_talisman_of_binding_shard.cpp\<close>,
  which has no loot hook, a kill occurrence that puts the item into the container sends the
  message at the kill.
\<close>

theorem announcement_at_collection_only:
  "global_messages (OnPlayerCreatureKill s killer killed roll now) = global_messages s
   \<and> global_messages (OnAfterConfigLoad s reload file) = global_messages s
   \<and> global_messages (OnPlayerLootItem s looter item cnt g now)
       = (if enable (gConf s) \<and> looter \<noteq> None \<and> item \<noteq> None
             \<and> item_entry (the item) = ITEM_TALISMAN
          then global_messages s
                 @ [GetName looter @ '' has looted the legendary Talisman of Binding Shard from ''
                      @ GetLootSourceName s looter g @ ''!'']
          else global_messages s)
   \<and> (creatures (OnPlayerCreatureKill_talisman s killer killed roll now) \<noteq> creatures s \<longrightarrow>
        global_messages (OnPlayerCreatureKill_talisman s killer killed roll now)
          = global_messages s
              @ [GetName killer @ '' has defeated '' @ creature_name (creatures s (the killed))
                   @ '' and claimed the legendary Talisman of Binding Shard!''])"
proof (intro conjI impI)
  show "global_messages (OnPlayerCreatureKill s killer killed roll now) = global_messages s"
    by (simp add: OnPlayerCreatureKill_def Let_def messages_KillPhase)
  show "global_messages (OnAfterConfigLoad s reload file) = global_messages s"
    by (rule messages_ConfigLoad)
  show "global_messages (OnPlayerLootItem s looter item cnt g now)
       = (if enable (gConf s) \<and> looter \<noteq> None \<and> item \<noteq> None
             \<and> item_entry (the item) = ITEM_TALISMAN
          then global_messages s
                 @ [GetName looter @ '' has looted the legendary Talisman of Binding Shard from ''
                      @ GetLootSourceName s looter g @ ''!'']
          else global_messages s)"
    by (auto simp add: OnPlayerLootItem_def messages_LootPhase AnnounceDrop_PlayerLoot_def
        SendGlobalMessage_def GetName_def Let_def)
  assume "creatures (OnPlayerCreatureKill_talisman s killer killed roll now) \<noteq> creatures s"
  then show "global_messages (OnPlayerCreatureKill_talisman s killer killed roll now)
          = global_messages s
              @ [GetName killer @ '' has defeated '' @ creature_name (creatures s (the killed))
                   @ '' and claimed the legendary Talisman of Binding Shard!'']"
    by (auto simp add: OnPlayerCreatureKill_talisman_def Let_def AnnounceDrop_def
        SendGlobalMessage_def PersistDropped_def messages_KillPhase creatures_KillPhase
        GetName_def split: if_splits)
qed

theorem announcement_at_collection_only_witness:
  "creatures (OnPlayerCreatureKill ex_world (Some alice) (Some 3) 7 1700000000) \<noteq> creatures ex_world
   \<and> global_messages (OnPlayerCreatureKill ex_world (Some alice) (Some 3) 7 1700000000) = []
   \<and> global_messages (OnPlayerLootItem ex_granted (Some alice) (Some \<lparr>item_entry = 17782\<rparr>) 1
        (CreatureGuid 3) 1700000200)
      = [''Alice has looted the legendary Talisman of Binding Shard from their foe!'']
   \<and> creatures (OnPlayerCreatureKill_talisman ex_world (Some alice) (Some 3) 7 1700000000)
        \<noteq> creatures ex_world
   \<and> global_messages (OnPlayerCreatureKill_talisman ex_world (Some alice) (Some 3) 7 1700000000)
      = [''Alice has defeated Baron Geddon and claimed the legendary Talisman of Binding Shard!'']"
proof -
  have a: "creatures (OnPlayerCreatureKill ex_world (Some alice) (Some 3) 7 1700000000)
             \<noteq> creatures ex_world"
    by (simp add: ex_defs hook_defs sanitized_name_def name_literal_examples fun_upd_idem_iff)
  have b: "creatures (OnPlayerCreatureKill_talisman ex_world (Some alice) (Some 3) 7 1700000000)
             \<noteq> creatures ex_world"
    by (simp add: ex_defs hook_defs sanitized_name_def name_literal_examples fun_upd_idem_iff)
  have c: "global_messages (OnPlayerCreatureKill ex_world (Some alice) (Some 3) 7 1700000000) = []"
    using announcement_at_collection_only
            [where s = ex_world and killer = "Some alice" and killed = "Some 3" and roll = 7
               and now = 1700000000]
    by (simp add: ex_defs)
  have d: "global_messages (OnPlayerLootItem ex_granted (Some alice) (Some \<lparr>item_entry = 17782\<rparr>) 1
        (CreatureGuid 3) 1700000200)
      = [''Alice has looted the legendary Talisman of Binding Shard from their foe!'']"
    by (simp add: ex_defs hook_defs sanitized_name_def name_literal_examples)
  have e: "global_messages (OnPlayerCreatureKill_talisman ex_world (Some alice) (Some 3) 7 1700000000)
      = [''Alice has defeated Baron Geddon and claimed the legendary Talisman of Binding Shard!'']"
    by (simp add: ex_defs hook_defs sanitized_name_def name_literal_examples)
  show ?thesis using a b c d e by simp
qed


text \<open>
  As first worded the property had no kill occurrence announce. The kill hook of
  \<^verbatim>\<open>mod_talisman_of_binding_shard.cpp\<close>, at a chance of 100 percent, puts the item into the
  container of creature 3 and sends the message during the kill.
\<close>

theorem announcement_at_kill_counterexample:
  "loot (creatures (OnPlayerCreatureKill_talisman ex_world (Some alice) (Some 3) 7 1700000000) 3)
     = \<lparr>items = [\<lparr>itemid = 17782, count = 1\<rparr>], quest_items = []\<rparr>
   \<and> global_messages ex_world = []
   \<and> global_messages (OnPlayerCreatureKill_talisman ex_world (Some alice) (Some 3) 7 1700000000)
     = [''Alice has defeated Baron Geddon and claimed the legendary Talisman of Binding Shard!'']"
  by (simp add: OnPlayerCreatureKill_talisman_def ex_world_def ex_conf_def ex_creature_def alice_def
      LootHasItem_def RollDrop_def fp_le_def d_100_def d_0_def ITEM_TALISMAN_def AddOneToLoot_def
      Loot_AddItem_def MakeLootStoreItem_def PersistDropped_def PersistDropped_KillPhase_def
      db_update_named_def sanitized_name_def name_literal_examples
      db_update_def GetName_def AnnounceDrop_def SendGlobalMessage_def Let_def)


subsection \<open>The persisted flag\<close>

lemma gConf_reset_after_load:
  "resetOnStart (gConf (EnsureTable (s\<lparr>gConf := c\<rparr>))) = resetOnStart c"
  by (simp add: EnsureTable_def split: option.splits)


text \<open>
  C7: a configuration load with reset-on-startup enabled, from any state and so from a granted
  one, leaves the row with the flag 0, the timestamp 0 and no actor, and the cache false.
\<close>

theorem reset_on_startup_clears:
  assumes "GetOption (conf_reset file) False"
  shows "db_row (OnAfterConfigLoad s reload file)
           = Some \<lparr>dropped = 0, last_drop_time = 0, last_killer = None\<rparr>
         \<and> \<not> gAlreadyDropped (OnAfterConfigLoad s reload file)"
  using assms
  by (simp add: OnAfterConfigLoad_def Let_def LoadDroppedState_def MaybeResetState_def
      EnsureTable_def db_update_def split: option.splits)

theorem reset_on_startup_clears_witness:
  "GetOption (conf_reset ex_file_reset) False \<and> persisted_granted ex_granted
   \<and> gAlreadyDropped ex_granted
   \<and> db_row (OnAfterConfigLoad ex_granted True ex_file_reset)
       = Some \<lparr>dropped = 0, last_drop_time = 0, last_killer = None\<rparr>
   \<and> \<not> gAlreadyDropped (OnAfterConfigLoad ex_granted True ex_file_reset)"
proof -
  have h: "GetOption (conf_reset ex_file_reset) False" by (simp add: ex_defs GetOption_def)
  from reset_on_startup_clears [OF h, of ex_granted True]
  show ?thesis using h by (simp add: persisted_granted_def ex_granted_def)
qed


lemma pg_EnsureTable: "persisted_granted s \<Longrightarrow> persisted_granted (EnsureTable s)"
  by (simp add: persisted_granted_def EnsureTable_def split: option.splits)

lemma pg_LoadDroppedState: "persisted_granted s \<Longrightarrow> persisted_granted (LoadDroppedState s)"
  by (simp add: persisted_granted_def LoadDroppedState_def split: option.splits)

lemma pg_MaybeResetState:
  "persisted_granted s \<Longrightarrow> \<not> resetOnStart (gConf s) \<Longrightarrow> persisted_granted (MaybeResetState s)"
  by (simp add: MaybeResetState_def)

lemma pg_KillPhase: "persisted_granted s \<Longrightarrow> persisted_granted (PersistDropped_KillPhase s p now)"
  by (simp add: persisted_granted_def PersistDropped_KillPhase_def db_update_named_def
      db_update_def Let_def split: option.splits)

lemma pg_LootPhase: "persisted_granted s \<Longrightarrow> persisted_granted (PersistDropped_LootPhase s p now)"
  by (simp add: persisted_granted_def PersistDropped_LootPhase_def db_update_named_def
      db_update_def Let_def split: option.splits)

lemma pg_gConf: "persisted_granted (s\<lparr>gConf := c\<rparr>) = persisted_granted s"
  by (simp add: persisted_granted_def)

lemma pg_creatures: "persisted_granted (s\<lparr>creatures := c\<rparr>) = persisted_granted s"
  by (simp add: persisted_granted_def)

lemma pg_message: "persisted_granted (SendGlobalMessage m s) = persisted_granted s"
  by (simp add: persisted_granted_def SendGlobalMessage_def)

lemma pg_ConfigLoad:
  assumes "persisted_granted s" "\<not> GetOption (conf_reset file) False"
  shows "persisted_granted (OnAfterConfigLoad s reload file)"
proof -
  have "persisted_granted (LoadDroppedState (MaybeResetState (EnsureTable (s\<lparr>gConf := c\<rparr>))))"
    if "\<not> resetOnStart c" for c
  proof -
    have "persisted_granted (EnsureTable (s\<lparr>gConf := c\<rparr>))"
      using assms(1) by (intro pg_EnsureTable) (simp add: pg_gConf)
    moreover have "\<not> resetOnStart (gConf (EnsureTable (s\<lparr>gConf := c\<rparr>)))"
      using that by (simp add: gConf_reset_after_load)
    ultimately show ?thesis by (intro pg_LoadDroppedState pg_MaybeResetState)
  qed
  then show ?thesis using assms(2) by (simp add: OnAfterConfigLoad_def Let_def)
qed

lemma pg_Kill: "persisted_granted s \<Longrightarrow> persisted_granted (OnPlayerCreatureKill s killer killed roll now)"
  by (simp add: OnPlayerCreatureKill_def Let_def pg_KillPhase pg_creatures)

lemma pg_Kill_talisman:
  "persisted_granted s \<Longrightarrow> persisted_granted (OnPlayerCreatureKill_talisman s killer killed roll now)"
  by (simp add: OnPlayerCreatureKill_talisman_def Let_def AnnounceDrop_def pg_message
      PersistDropped_def pg_KillPhase pg_creatures)

lemma pg_Loot:
  "persisted_granted s \<Longrightarrow> persisted_granted (OnPlayerLootItem s looter item cnt g now)"
  by (simp add: OnPlayerLootItem_def AnnounceDrop_PlayerLoot_def Let_def pg_LootPhase pg_message)

lemma pg_step:
  "persisted_granted s \<Longrightarrow> \<not> is_reset_load e \<Longrightarrow> persisted_granted (step v s e)"
  by (cases e; cases v) (simp_all add: pg_ConfigLoad pg_Kill pg_Kill_talisman pg_Loot)

lemma pg_run:
  "persisted_granted s \<Longrightarrow> \<forall>e\<in>set es. \<not> is_reset_load e \<Longrightarrow> persisted_granted (run v s es)"
  unfolding run_def by (induction es arbitrary: s) (simp_all add: pg_step)


text \<open>
  C5: once the persisted flag is true, every operation of the module keeps it true, the reset
  apart: the table set-up, the load of the cache, both recording operations, the kill hooks
  and the loot hook, \<^verbatim>\<open>MaybeResetState\<close> and the configuration load when reset-on-startup is
  off, and so every sequence of occurrences with no resetting configuration load.
\<close>

theorem granted_only_reset_clears:
  assumes "persisted_granted s"
  shows "persisted_granted (EnsureTable s) \<and> persisted_granted (LoadDroppedState s)
    \<and> persisted_granted (PersistDropped_KillPhase s p now)
    \<and> persisted_granted (PersistDropped s p now)
    \<and> persisted_granted (PersistDropped_LootPhase s p now)
    \<and> persisted_granted (OnPlayerCreatureKill s p killed roll now)
    \<and> persisted_granted (OnPlayerCreatureKill_talisman s p killed roll now)
    \<and> persisted_granted (OnPlayerLootItem s p item cnt g now)
    \<and> (\<not> resetOnStart (gConf s) \<longrightarrow> persisted_granted (MaybeResetState s))
    \<and> (\<not> GetOption (conf_reset file) False \<longrightarrow> persisted_granted (OnAfterConfigLoad s reload file))
    \<and> ((\<forall>e\<in>set es. \<not> is_reset_load e) \<longrightarrow> persisted_granted (run v s es))"
  using assms
  by (simp add: pg_EnsureTable pg_LoadDroppedState pg_KillPhase PersistDropped_def pg_LootPhase
      pg_Kill pg_Kill_talisman pg_Loot pg_MaybeResetState pg_ConfigLoad pg_run)

theorem granted_only_reset_clears_witness:
  "persisted_granted ex_granted
   \<and> persisted_granted (OnPlayerCreatureKill ex_granted (Some bob) (Some 4) 7 1700000100)
   \<and> persisted_granted (OnPlayerLootItem ex_granted (Some bob) (Some \<lparr>item_entry = 17782\<rparr>) 1
        (CreatureGuid 3) 1700000100)
   \<and> \<not> resetOnStart (gConf ex_granted) \<and> persisted_granted (MaybeResetState ex_granted)
   \<and> \<not> is_reset_load ex_kill_bob
   \<and> persisted_granted (run TwoPhase ex_granted [ex_kill_bob])"
proof -
  have h: "persisted_granted ex_granted" by (simp add: persisted_granted_def ex_defs)
  have k: "\<forall>e\<in>set [ex_kill_bob]. \<not> is_reset_load e" by (simp add: ex_defs)
  have r: "\<not> resetOnStart (gConf ex_granted)" by (simp add: ex_defs)
  from granted_only_reset_clears [OF h, of "Some bob" 1700000100 "Some 4" 7
      "Some \<lparr>item_entry = 17782\<rparr>" 1 "CreatureGuid 3" ex_file_reset False "[ex_kill_bob]" TwoPhase]
  show ?thesis using h k r by (simp add: ex_kill_bob_def)
qed


end
